theory Spec2Isabelle
  imports Main
begin

section \<open>Documents and the document store\<close>

text \<open>
  The backend keeps three CouchDB databases (users, events, participants) and talks to
  them through nano: \<^verbatim>\<open>get\<close>, \<^verbatim>\<open>insert\<close>, \<^verbatim>\<open>destroy\<close> and the \<^verbatim>\<open>by_event\<close> view. A stored
  document carries the store's \<^verbatim>\<open>_id\<close> and \<^verbatim>\<open>_rev\<close> next to the fields the routes write.
\<close>

type_synonym docid = string
type_synonym userid = string

record user =
  name :: string
  email :: string

record event =
  title :: string
  description :: string
  date :: string
  location :: string
  maxParticipants :: "int option"
  creatorId :: userid
  creatorName :: string
  createdAt :: string
  updatedAt :: string

record participant =
  eventId :: docid
  userId :: userid
  userName :: string
  userEmail :: string
  eventTitle :: string
  eventDate :: string
  rsvpDate :: string

record 'a doc =
  doc_id :: docid
  doc_rev :: nat
  doc_fields :: 'a

record store =
  users :: "user doc list"
  events :: "event doc list"
  participants :: "participant doc list"

text \<open>A rejected store call: the error object of nano, of which the routes read \<^verbatim>\<open>statusCode\<close>.\<close>

datatype store_error = StoreError (statusCode: nat)

text \<open>
  The read of a document by its identifier: the document, or the error 404 of the store when
  the database holds none under that identifier. nano sends the identifier as a path under
  the database, where the store keeps paths of its own (\<^verbatim>\<open>_all_docs\<close>, \<^verbatim>\<open>_design/queries\<close>); for
  such a path the store answers with a listing or a design document, which is no document
  of the list and which \<open>db_get\<close> does not return. What a route does when no document is found
  is therefore stated below on the answer of the store, \<open>Inl (StoreError 404)\<close>, and not on
  the identifiers of the list.
\<close>

definition db_get :: "'a doc list \<Rightarrow> docid \<Rightarrow> store_error + 'a doc" where
  "db_get db i =
     (case find (\<lambda>d. doc_id d = i) db of
        None \<Rightarrow> Inl (StoreError 404)
      | Some d \<Rightarrow> Inr d)"

text \<open>Insertion of a document without \<^verbatim>\<open>_id\<close>: the store assigns the identifier \<open>i\<close>.\<close>

definition db_insert :: "'a doc list \<Rightarrow> docid \<Rightarrow> 'a \<Rightarrow> store_error + (docid \<times> 'a doc list)" where
  "db_insert db i x =
     (if i \<in> set (map doc_id db) then Inl (StoreError 409)
      else Inr (i, db @ [\<lparr>doc_id = i, doc_rev = 1, doc_fields = x\<rparr>]))"

text \<open>Insertion of a document that carries \<^verbatim>\<open>_id\<close> and \<^verbatim>\<open>_rev\<close>: an update guarded by the revision.\<close>

definition db_update :: "'a doc list \<Rightarrow> 'a doc \<Rightarrow> store_error + 'a doc list" where
  "db_update db d =
     (case find (\<lambda>x. doc_id x = doc_id d) db of
        None \<Rightarrow> Inl (StoreError 409)
      | Some old \<Rightarrow>
          if doc_rev old \<noteq> doc_rev d then Inl (StoreError 409)
          else Inr (map (\<lambda>x. if doc_id x = doc_id d then d\<lparr>doc_rev := Suc (doc_rev d)\<rparr> else x) db))"

definition db_destroy :: "'a doc list \<Rightarrow> docid \<Rightarrow> nat \<Rightarrow> store_error + 'a doc list" where
  "db_destroy db i r =
     (case find (\<lambda>d. doc_id d = i) db of
        None \<Rightarrow> Inl (StoreError 404)
      | Some d \<Rightarrow>
          if doc_rev d \<noteq> r then Inl (StoreError 409)
          else Inr (filter (\<lambda>x. doc_id x \<noteq> i) db))"

text \<open>
  The view \<^verbatim>\<open>by_event\<close> of the participants database: its map function emits a document
  under its \<^verbatim>\<open>eventId\<close> when that field is truthy, and the routes query it with one key.
  The rows come in the order in which the database holds the documents.
\<close>

definition by_event :: "participant doc list \<Rightarrow> docid \<Rightarrow> participant doc list" where
  "by_event db k = filter (\<lambda>d. eventId (doc_fields d) \<noteq> [] \<and> eventId (doc_fields d) = k) db"

text \<open>
  What a request does not control: the clock, the identifier the store assigns to an
  inserted document, and for every store call of the routes whether the store rejects it
  (\<open>Some c\<close>: the call throws an error with status code \<open>c\<close>).
\<close>

record env =
  now :: string
  assigned_id :: docid
  users_get_fault :: "nat option"
  events_get_fault :: "nat option"
  events_insert_fault :: "nat option"
  events_destroy_fault :: "nat option"
  participants_get_fault :: "nat option"
  participants_view_fault :: "nat option"
  participants_insert_fault :: "nat option"
  participants_destroy_fault :: "docid \<Rightarrow> nat option"

definition attempt :: "nat option \<Rightarrow> store_error + 'a \<Rightarrow> store_error + 'a" where
  "attempt fault r = (case fault of Some c \<Rightarrow> Inl (StoreError c) | None \<Rightarrow> r)"

definition reliable :: "string \<Rightarrow> docid \<Rightarrow> env" where
  "reliable t i =
     \<lparr>now = t, assigned_id = i, users_get_fault = None, events_get_fault = None,
      events_insert_fault = None, events_destroy_fault = None,
      participants_get_fault = None, participants_view_fault = None,
      participants_insert_fault = None, participants_destroy_fault = (\<lambda>_. None)\<rparr>"

section \<open>Requests, responses and the console\<close>

text \<open>What the auth middleware leaves on the request: \<^verbatim>\<open>req.userId\<close> and \<^verbatim>\<open>req.user\<close>.\<close>

record request =
  req_userId :: userid
  req_user :: user

datatype payload =
    Errors
  | Error string
  | Message string
  | RsvpSuccessful docid participant
  | EventUpdated docid event

datatype response = Response (status: nat) (payload: payload)

text \<open>A handler's result: the response, the store it leaves, the lines written by \<^verbatim>\<open>console.error\<close>.\<close>

record outcome =
  reply :: response
  store_after :: store
  logged :: "string list"

text \<open>The sanitizer \<^verbatim>\<open>trim()\<close> of the validation chains, on ASCII whitespace.\<close>

definition is_space :: "char \<Rightarrow> bool" where
  "is_space c = (c \<in> set [CHR '' '', CHR 0x09, CHR 0x0A, CHR 0x0B, CHR 0x0C, CHR 0x0D])"

definition trim :: "string \<Rightarrow> string" where
  "trim s = rev (dropWhile is_space (rev (dropWhile is_space s)))"

section \<open>The auth middleware\<close>

text \<open>\<^verbatim>\<open>String.prototype.replace\<close> with a string pattern: the first occurrence only.\<close>

fun replace_first :: "string \<Rightarrow> string \<Rightarrow> string \<Rightarrow> string" where
  "replace_first pat rep [] = (if pat = [] then rep else [])"
| "replace_first pat rep (c # cs) =
     (if take (length pat) (c # cs) = pat then rep @ drop (length pat) (c # cs)
      else c # replace_first pat rep cs)"

text \<open>
  \<open>jwt_verify\<close> stands for \<^verbatim>\<open>jwt.verify(token, process.env.JWT_SECRET)\<close> followed by the read
  of \<^verbatim>\<open>decoded.id\<close>: \<open>None\<close> when the library throws (bad signature, expired, malformed).
\<close>

definition auth :: "(string \<Rightarrow> docid option) \<Rightarrow> env \<Rightarrow> store \<Rightarrow> string option \<Rightarrow> response + request" where
  "auth jwt_verify ev st header =
     (case map_option (replace_first ''Bearer '' []) header of
        None \<Rightarrow> Inl (Response 401 (Error ''Authentication required''))
      | Some token \<Rightarrow>
          if token = [] then Inl (Response 401 (Error ''Authentication required''))
          else
            (case jwt_verify token of
               None \<Rightarrow> Inl (Response 401 (Error ''Invalid token''))
             | Some uid \<Rightarrow>
                 (case attempt (users_get_fault ev) (db_get (users st) uid) of
                    Inl _ \<Rightarrow> Inl (Response 401 (Error ''User not found''))
                  | Inr u \<Rightarrow> Inr \<lparr>req_userId = doc_id u, req_user = doc_fields u\<rparr>)))"

section \<open>RSVP creation\<close>

text \<open>\<^verbatim>\<open>event.maxParticipants && existing.rows.length >= event.maxParticipants\<close>\<close>

definition event_full :: "int option \<Rightarrow> nat \<Rightarrow> bool" where
  "event_full cap n = (case cap of None \<Rightarrow> False | Some c \<Rightarrow> c \<noteq> 0 \<and> int n \<ge> c)"

text \<open>
  The handler up to its last read: validation, the event lookup, and the duplicate and
  capacity checks inside their own \<^verbatim>\<open>try\<close>, whose \<^verbatim>\<open>catch\<close> is empty. It ends in a response
  or in the participant to insert.
\<close>

definition rsvp_check :: "env \<Rightarrow> store \<Rightarrow> request \<Rightarrow> string \<Rightarrow> response + participant" where
  "rsvp_check ev st rq raw =
     (let eid = trim raw in
      if eid = [] then Inl (Response 400 Errors)
      else
        (case attempt (events_get_fault ev) (db_get (events st) eid) of
           Inl _ \<Rightarrow> Inl (Response 404 (Error ''Event not found''))
         | Inr e \<Rightarrow>
             (let p = \<lparr>eventId = eid, userId = req_userId rq,
                       userName = name (req_user rq), userEmail = email (req_user rq),
                       eventTitle = title (doc_fields e), eventDate = date (doc_fields e),
                       rsvpDate = now ev\<rparr>
              in case attempt (participants_view_fault ev) (Inr (by_event (participants st) eid)) of
                   Inl _ \<Rightarrow> Inr p
                 | Inr rows \<Rightarrow>
                     if list_ex (\<lambda>row. userId (doc_fields row) = req_userId rq) rows
                     then Inl (Response 400 (Error ''Already RSVP'd to this event''))
                     else if event_full (maxParticipants (doc_fields e)) (length rows)
                     then Inl (Response 400 (Error ''Event is full''))
                     else Inr p)))"

text \<open>The insert and the 201 response; a rejected insert reaches the outer \<^verbatim>\<open>catch\<close>.\<close>

definition rsvp_commit :: "env \<Rightarrow> store \<Rightarrow> participant \<Rightarrow> outcome" where
  "rsvp_commit ev st p =
     (case attempt (participants_insert_fault ev) (db_insert (participants st) (assigned_id ev) p) of
        Inl _ \<Rightarrow> \<lparr>reply = Response 500 (Error ''Server error creating RSVP''),
                  store_after = st, logged = [''RSVP error:'']\<rparr>
      | Inr (i, db) \<Rightarrow> \<lparr>reply = Response 201 (RsvpSuccessful i p),
                       store_after = st\<lparr>participants := db\<rparr>, logged = []\<rparr>)"

definition rsvp_create :: "env \<Rightarrow> store \<Rightarrow> request \<Rightarrow> string \<Rightarrow> outcome" where
  "rsvp_create ev st rq raw =
     (case rsvp_check ev st rq raw of
        Inl r \<Rightarrow> \<lparr>reply = r, store_after = st, logged = []\<rparr>
      | Inr p \<Rightarrow> rsvp_commit ev st p)"

text \<open>
  Two requests in flight at once. Every \<^verbatim>\<open>await\<close> hands control back to the event loop, so
  the second handler may run its reads between the first handler's view query and its
  insert: both check the same store, then both insert.
\<close>

definition rsvp_overlapped ::
  "env \<Rightarrow> request \<Rightarrow> string \<Rightarrow> env \<Rightarrow> request \<Rightarrow> string \<Rightarrow> store \<Rightarrow> outcome \<times> outcome" where
  "rsvp_overlapped ev1 rq1 raw1 ev2 rq2 raw2 st =
     (let c1 = rsvp_check ev1 st rq1 raw1;
          c2 = rsvp_check ev2 st rq2 raw2;
          o1 = (case c1 of Inl r \<Rightarrow> \<lparr>reply = r, store_after = st, logged = []\<rparr>
                | Inr p \<Rightarrow> rsvp_commit ev1 st p);
          o2 = (case c2 of Inl r \<Rightarrow> \<lparr>reply = r, store_after = store_after o1, logged = []\<rparr>
                | Inr p \<Rightarrow> rsvp_commit ev2 (store_after o1) p)
      in (o1, o2))"

section \<open>RSVP cancellation\<close>

definition cancel_failed :: "store_error \<Rightarrow> store \<Rightarrow> outcome" where
  "cancel_failed e st =
     (if statusCode e = 404
      then \<lparr>reply = Response 404 (Error ''RSVP not found''), store_after = st, logged = []\<rparr>
      else \<lparr>reply = Response 500 (Error ''Server error cancelling RSVP''), store_after = st,
            logged = [''Cancel RSVP error:'']\<rparr>)"

definition cancel_by_id :: "env \<Rightarrow> store \<Rightarrow> request \<Rightarrow> docid \<Rightarrow> outcome" where
  "cancel_by_id ev st rq i =
     (case attempt (participants_get_fault ev) (db_get (participants st) i) of
        Inl e \<Rightarrow> cancel_failed e st
      | Inr p \<Rightarrow>
          if userId (doc_fields p) \<noteq> req_userId rq
          then \<lparr>reply = Response 403 (Error ''Not authorized to cancel this RSVP''),
                store_after = st, logged = []\<rparr>
          else
            (case attempt (participants_destroy_fault ev i) (db_destroy (participants st) i (doc_rev p)) of
               Inl e \<Rightarrow> cancel_failed e st
             | Inr db \<Rightarrow> \<lparr>reply = Response 200 (Message ''RSVP cancelled successfully''),
                          store_after = st\<lparr>participants := db\<rparr>, logged = []\<rparr>))"

definition cancel_by_pair :: "env \<Rightarrow> store \<Rightarrow> request \<Rightarrow> docid \<Rightarrow> userid \<Rightarrow> outcome" where
  "cancel_by_pair ev st rq eid uid =
     (if uid \<noteq> req_userId rq
      then \<lparr>reply = Response 403 (Error ''Not authorized to cancel this RSVP''),
            store_after = st, logged = []\<rparr>
      else
        (case attempt (participants_view_fault ev) (Inr (by_event (participants st) eid)) of
           Inl _ \<Rightarrow> \<lparr>reply = Response 500 (Error ''Server error cancelling RSVP''),
                     store_after = st, logged = [''Cancel RSVP error:'']\<rparr>
         | Inr rows \<Rightarrow>
             (case find (\<lambda>row. userId (doc_fields row) = uid) rows of
                None \<Rightarrow> \<lparr>reply = Response 404 (Error ''RSVP not found''),
                         store_after = st, logged = []\<rparr>
              | Some p \<Rightarrow>
                  (case attempt (participants_destroy_fault ev (doc_id p))
                          (db_destroy (participants st) (doc_id p) (doc_rev p)) of
                     Inl _ \<Rightarrow> \<lparr>reply = Response 500 (Error ''Server error cancelling RSVP''),
                               store_after = st, logged = [''Cancel RSVP error:'']\<rparr>
                   | Inr db \<Rightarrow> \<lparr>reply = Response 200 (Message ''RSVP cancelled successfully''),
                                store_after = st\<lparr>participants := db\<rparr>, logged = []\<rparr>))))"

section \<open>Event update\<close>

text \<open>
  The JSON body of \<^verbatim>\<open>PUT /events/:id\<close>: every field may be absent (\<open>None\<close>). A present
  \<^verbatim>\<open>maxParticipants\<close> is the integer the body denotes; a value that denotes no integer is
  refused by the validation as an integer below 1 is.
\<close>

record event_update =
  new_title :: "string option"
  new_description :: "string option"
  new_date :: "string option"
  new_location :: "string option"
  new_maxParticipants :: "int option"

text \<open>
  The validation chain of the route. \<open>isISO8601\<close> is the validator of that name of
  express-validator, which the repository takes from the library.
\<close>

definition not_empty_if_present :: "string option \<Rightarrow> bool" where
  "not_empty_if_present x = (case x of None \<Rightarrow> True | Some s \<Rightarrow> trim s \<noteq> [])"

definition update_valid :: "(string \<Rightarrow> bool) \<Rightarrow> event_update \<Rightarrow> bool" where
  "update_valid isISO8601 b =
     (not_empty_if_present (new_title b) \<and>
      not_empty_if_present (new_description b) \<and>
      (case new_date b of None \<Rightarrow> True | Some d \<Rightarrow> isISO8601 d) \<and>
      not_empty_if_present (new_location b) \<and>
      (case new_maxParticipants b of None \<Rightarrow> True | Some n \<Rightarrow> 1 \<le> n))"

text \<open>\<^verbatim>\<open>if (x) event.field = x\<close>: a string is truthy when it is not empty.\<close>

definition overwrite_if_truthy :: "string option \<Rightarrow> string \<Rightarrow> string" where
  "overwrite_if_truthy x old = (case x of None \<Rightarrow> old | Some s \<Rightarrow> if s \<noteq> [] then s else old)"

definition merge_update :: "string \<Rightarrow> event_update \<Rightarrow> event \<Rightarrow> event" where
  "merge_update t b e =
     e\<lparr>title := overwrite_if_truthy (map_option trim (new_title b)) (title e),
       description := overwrite_if_truthy (map_option trim (new_description b)) (description e),
       date := overwrite_if_truthy (new_date b) (date e),
       location := overwrite_if_truthy (map_option trim (new_location b)) (location e),
       maxParticipants := (case new_maxParticipants b of None \<Rightarrow> maxParticipants e | Some n \<Rightarrow> Some n),
       updatedAt := t\<rparr>"

definition update_failed :: "store_error \<Rightarrow> store \<Rightarrow> outcome" where
  "update_failed e st =
     (if statusCode e = 404
      then \<lparr>reply = Response 404 (Error ''Event not found''), store_after = st, logged = []\<rparr>
      else \<lparr>reply = Response 500 (Error ''Server error updating event''), store_after = st,
            logged = [''Update event error:'']\<rparr>)"

definition update_event ::
  "(string \<Rightarrow> bool) \<Rightarrow> env \<Rightarrow> store \<Rightarrow> request \<Rightarrow> docid \<Rightarrow> event_update \<Rightarrow> outcome" where
  "update_event isISO8601 ev st rq i b =
     (if \<not> update_valid isISO8601 b
      then \<lparr>reply = Response 400 Errors, store_after = st, logged = []\<rparr>
      else
        (case attempt (events_get_fault ev) (db_get (events st) i) of
           Inl e \<Rightarrow> update_failed e st
         | Inr d \<Rightarrow>
             if creatorId (doc_fields d) \<noteq> req_userId rq
             then \<lparr>reply = Response 403 (Error ''Not authorized to update this event''),
                   store_after = st, logged = []\<rparr>
             else
               (let e' = merge_update (now ev) b (doc_fields d) in
                case attempt (events_insert_fault ev) (db_update (events st) (d\<lparr>doc_fields := e'\<rparr>)) of
                  Inl e \<Rightarrow> update_failed e st
                | Inr db \<Rightarrow> \<lparr>reply = Response 200 (EventUpdated (doc_id d) e'),
                             store_after = st\<lparr>events := db\<rparr>, logged = []\<rparr>)))"

section \<open>Event deletion\<close>

text \<open>
  \<^verbatim>\<open>participants.rows.map(row => participantsDB.destroy(row.doc._id, row.doc._rev))\<close>
  issues one deletion per row before anything is awaited, so each of them reaches the
  store whatever becomes of the others. The result is the database once all of them have
  settled, with the rejections.
\<close>

fun destroy_each ::
  "(docid \<Rightarrow> nat option) \<Rightarrow> participant doc list \<Rightarrow> participant doc list \<Rightarrow>
   participant doc list \<times> store_error list" where
  "destroy_each fault db [] = (db, [])"
| "destroy_each fault db (row # rows) =
     (case attempt (fault (doc_id row)) (db_destroy db (doc_id row) (doc_rev row)) of
        Inl e \<Rightarrow> (case destroy_each fault db rows of (db', es) \<Rightarrow> (db', e # es))
      | Inr db1 \<Rightarrow> destroy_each fault db1 rows)"

text \<open>
  The inner \<^verbatim>\<open>try\<close> of the route: the view query and \<^verbatim>\<open>await Promise.all(deletePromises)\<close>.
  A rejected view query or a rejected deletion ends in the one \<^verbatim>\<open>catch\<close>, which writes one
  line to the console.
\<close>

definition delete_participants :: "env \<Rightarrow> store \<Rightarrow> docid \<Rightarrow> participant doc list \<times> string list" where
  "delete_participants ev st i =
     (case attempt (participants_view_fault ev) (Inr (by_event (participants st) i)) of
        Inl _ \<Rightarrow> (participants st, [''Error deleting participants:''])
      | Inr rows \<Rightarrow>
          (case destroy_each (participants_destroy_fault ev) (participants st) rows of
             (db, es) \<Rightarrow> (db, if es = [] then [] else [''Error deleting participants:''])))"

definition delete_failed :: "store_error \<Rightarrow> store \<Rightarrow> string list \<Rightarrow> outcome" where
  "delete_failed e st lg =
     (if statusCode e = 404
      then \<lparr>reply = Response 404 (Error ''Event not found''), store_after = st, logged = lg\<rparr>
      else \<lparr>reply = Response 500 (Error ''Server error deleting event''), store_after = st,
            logged = lg @ [''Delete event error:'']\<rparr>)"

definition delete_event :: "env \<Rightarrow> store \<Rightarrow> request \<Rightarrow> docid \<Rightarrow> outcome" where
  "delete_event ev st rq i =
     (case attempt (events_get_fault ev) (db_get (events st) i) of
        Inl e \<Rightarrow> delete_failed e st []
      | Inr d \<Rightarrow>
          if creatorId (doc_fields d) \<noteq> req_userId rq
          then \<lparr>reply = Response 403 (Error ''Not authorized to delete this event''),
                store_after = st, logged = []\<rparr>
          else
            (case delete_participants ev st i of
               (pdb, lg) \<Rightarrow>
                 (case attempt (events_destroy_fault ev) (db_destroy (events st) i (doc_rev d)) of
                    Inl e \<Rightarrow> delete_failed e (st\<lparr>participants := pdb\<rparr>) lg
                  | Inr edb \<Rightarrow>
                      \<lparr>reply = Response 200 (Message ''Event and linked RSVPs deleted successfully''),
                       store_after = st\<lparr>events := edb, participants := pdb\<rparr>, logged = lg\<rparr>)))"

section \<open>Sequences of requests\<close>

datatype op =
    Rsvp env request string
  | CancelById env request docid
  | CancelByPair env request docid userid
  | UpdateEvent env request docid event_update
  | DeleteEvent env request docid

fun apply_op :: "(string \<Rightarrow> bool) \<Rightarrow> store \<Rightarrow> op \<Rightarrow> outcome" where
  "apply_op isISO8601 st (Rsvp ev rq raw) = rsvp_create ev st rq raw"
| "apply_op isISO8601 st (CancelById ev rq i) = cancel_by_id ev st rq i"
| "apply_op isISO8601 st (CancelByPair ev rq eid uid) = cancel_by_pair ev st rq eid uid"
| "apply_op isISO8601 st (UpdateEvent ev rq i b) = update_event isISO8601 ev st rq i b"
| "apply_op isISO8601 st (DeleteEvent ev rq i) = delete_event ev st rq i"

text \<open>Requests served one after the other, each to completion.\<close>

fun run :: "(string \<Rightarrow> bool) \<Rightarrow> store \<Rightarrow> op list \<Rightarrow> store" where
  "run isISO8601 st [] = st"
| "run isISO8601 st (x # xs) = run isISO8601 (store_after (apply_op isISO8601 st x)) xs"

text \<open>An RSVP creation whose \<^verbatim>\<open>by_event\<close> query the store answers.\<close>

fun rsvp_with_lookup :: "op \<Rightarrow> bool" where
  "rsvp_with_lookup (Rsvp ev rq raw) = (participants_view_fault ev = None)"
| "rsvp_with_lookup _ = False"

fun lookup_answered :: "op \<Rightarrow> bool" where
  "lookup_answered (Rsvp ev rq raw) = (participants_view_fault ev = None)"
| "lookup_answered _ = True"

section \<open>Properties of a store\<close>

text \<open>Identifiers are unique within a database.\<close>

definition unique_ids :: "'a doc list \<Rightarrow> bool" where
  "unique_ids db = distinct (map doc_id db)"

text \<open>At most one participant per pair of event and user.\<close>

definition unique_pairs :: "participant doc list \<Rightarrow> bool" where
  "unique_pairs db = distinct (map (\<lambda>d. (eventId (doc_fields d), userId (doc_fields d))) db)"

text \<open>Every participant refers to an event of the store.\<close>

definition no_orphans :: "store \<Rightarrow> bool" where
  "no_orphans st = list_all (\<lambda>p. eventId (doc_fields p) \<in> set (map doc_id (events st))) (participants st)"

section \<open>A small deployment\<close>

text \<open>
  Three users and one event with a single seat, created by Alice; the stores below differ
  in the RSVPs they hold.
\<close>

definition alice :: request where
  "alice = \<lparr>req_userId = ''u1'', req_user = \<lparr>name = ''Alice'', email = ''alice@example.org''\<rparr>\<rparr>"

definition bob :: request where
  "bob = \<lparr>req_userId = ''u2'', req_user = \<lparr>name = ''Bob'', email = ''bob@example.org''\<rparr>\<rparr>"

definition carol :: request where
  "carol = \<lparr>req_userId = ''u3'', req_user = \<lparr>name = ''Carol'', email = ''carol@example.org''\<rparr>\<rparr>"

definition user_doc :: "request \<Rightarrow> user doc" where
  "user_doc rq = \<lparr>doc_id = req_userId rq, doc_rev = 1, doc_fields = req_user rq\<rparr>"

definition standup :: "event doc" where
  "standup =
     \<lparr>doc_id = ''e1'', doc_rev = 1,
      doc_fields =
        \<lparr>title = ''Standup'', description = ''Daily'', date = ''2025-01-01T09:00:00Z'',
         location = ''Room A'', maxParticipants = Some 1, creatorId = ''u1'',
         creatorName = ''Alice'', createdAt = ''t0'', updatedAt = ''t0''\<rparr>\<rparr>"

definition rsvp_doc :: "docid \<Rightarrow> request \<Rightarrow> string \<Rightarrow> participant doc" where
  "rsvp_doc i rq t =
     \<lparr>doc_id = i, doc_rev = 1,
      doc_fields =
        \<lparr>eventId = ''e1'', userId = req_userId rq, userName = name (req_user rq),
         userEmail = email (req_user rq), eventTitle = ''Standup'',
         eventDate = ''2025-01-01T09:00:00Z'', rsvpDate = t\<rparr>\<rparr>"

definition base_store :: "participant doc list \<Rightarrow> store" where
  "base_store ps = \<lparr>users = [user_doc alice, user_doc bob, user_doc carol], events = [standup], participants = ps\<rparr>"

text \<open>No RSVP yet.\<close>

definition open_store :: store where
  "open_store = base_store []"

text \<open>Bob holds the only seat.\<close>

definition full_store :: store where
  "full_store = base_store [rsvp_doc ''p1'' bob ''t1'']"

text \<open>Bob and Carol both hold an RSVP.\<close>

definition crowded_store :: store where
  "crowded_store = base_store [rsvp_doc ''p1'' bob ''t1'', rsvp_doc ''p2'' carol ''t2'']"

text \<open>Bob holds two RSVPs for the same event.\<close>

definition doubled_store :: store where
  "doubled_store = base_store [rsvp_doc ''p1'' bob ''t1'', rsvp_doc ''p2'' bob ''t2'']"

text \<open>A stand-in for the library's \<^verbatim>\<open>isISO8601\<close>: it accepts every string but the empty one.\<close>

definition any_date :: "string \<Rightarrow> bool" where
  "any_date d = (d \<noteq> [])"

text \<open>A body that asks for no seat at all, which the validation of the route refuses.\<close>

definition no_seats :: event_update where
  "no_seats = \<lparr>new_title = None, new_description = None, new_date = None,
               new_location = None, new_maxParticipants = Some 0\<rparr>"

text \<open>A body that carries a new title and nothing else.\<close>

definition retitle :: event_update where
  "retitle = \<lparr>new_title = Some '' Retro '', new_description = None, new_date = None,
              new_location = None, new_maxParticipants = None\<rparr>"

text \<open>A store that rejects the \<^verbatim>\<open>by_event\<close> query, as one without the design document does.\<close>

definition view_down :: "string \<Rightarrow> docid \<Rightarrow> env" where
  "view_down t i = (reliable t i)\<lparr>participants_view_fault := Some 404\<rparr>"

text \<open>A store that rejects every deletion of a participant.\<close>

definition destroy_down :: "string \<Rightarrow> docid \<Rightarrow> env" where
  "destroy_down t i = (reliable t i)\<lparr>participants_destroy_fault := (\<lambda>_. Some 500)\<rparr>"

text \<open>A store that rejects the deletion of one participant, \<open>j\<close>.\<close>

definition stuck :: "docid \<Rightarrow> string \<Rightarrow> docid \<Rightarrow> env" where
  "stuck j t i = (reliable t i)\<lparr>participants_destroy_fault := (\<lambda>x. if x = j then Some 500 else None)\<rparr>"

text \<open>
  A token verifier that accepts one token, issued to a user whose document has since been
  removed from the users database.
\<close>

definition issued :: "string \<Rightarrow> docid option" where
  "issued t = (if t = ''tok4'' then Some ''u4'' else None)"

section \<open>Facts about the store\<close>

lemma attempt_simps [simp]:
  "attempt None r = r" "attempt (Some c) r = Inl (StoreError c)"
  by (simp_all add: attempt_def)

lemma attempt_Inr: "attempt f r = Inr x \<longleftrightarrow> f = None \<and> r = Inr x"
  by (cases f) simp_all

lemma find_unique:
  "distinct (map f xs) \<Longrightarrow> x \<in> set xs \<Longrightarrow> find (\<lambda>y. f y = f x) xs = Some x"
proof (induction xs)
  case Nil
  then show ?case by simp
next
  case (Cons a xs)
  then show ?case by (auto simp: image_iff)
qed

lemma find_SomeD: "find P xs = Some x \<Longrightarrow> x \<in> set xs \<and> P x"
  by (induction xs) (auto split: if_splits)

lemma db_get_Inr: "db_get db i = Inr d \<Longrightarrow> d \<in> set db \<and> doc_id d = i"
  by (auto simp: db_get_def split: option.splits dest: find_SomeD)

lemma db_get_absent: "db_get db i = Inl (StoreError 404) \<longleftrightarrow> i \<notin> doc_id ` set db"
  by (auto simp: db_get_def find_None_iff image_iff split: option.splits dest: find_SomeD)

lemma db_destroy_member:
  "unique_ids db \<Longrightarrow> d \<in> set db \<Longrightarrow>
   db_destroy db (doc_id d) (doc_rev d) = Inr (filter (\<lambda>x. doc_id x \<noteq> doc_id d) db)"
  by (simp add: db_destroy_def unique_ids_def find_unique)

lemma db_destroy_Inr:
  "db_destroy db i r = Inr db' \<Longrightarrow> db' = filter (\<lambda>x. doc_id x \<noteq> i) db"
  by (auto simp: db_destroy_def split: option.splits if_splits)

lemma db_destroy_got:
  "db_get db i = Inr d \<Longrightarrow> db_destroy db i (doc_rev d) = Inr (filter (\<lambda>x. doc_id x \<noteq> i) db)"
  by (auto simp: db_get_def db_destroy_def split: option.splits)

lemma unique_ids_filter: "unique_ids db \<Longrightarrow> unique_ids (filter P db)"
  by (simp add: unique_ids_def distinct_map_filter)

lemma unique_pairs_filter: "unique_pairs db \<Longrightarrow> unique_pairs (filter P db)"
  by (simp add: unique_pairs_def distinct_map_filter)


section \<open>RSVP creation: the checks and the insert\<close>

lemma rsvp_check_Inr:
  assumes "rsvp_check ev st rq raw = Inr p" and "participants_view_fault ev = None"
  shows "trim raw \<noteq> [] \<and> eventId p = trim raw \<and> userId p = req_userId rq \<and>
         events_get_fault ev = None \<and>
         (\<exists>e. db_get (events st) (trim raw) = Inr e \<and>
              \<not> event_full (maxParticipants (doc_fields e)) (length (by_event (participants st) (trim raw)))) \<and>
         \<not> list_ex (\<lambda>row. userId (doc_fields row) = req_userId rq) (by_event (participants st) (trim raw))"
  using assms
  by (auto simp: rsvp_check_def Let_def attempt_Inr split: if_splits sum.splits)

lemma rsvp_check_fields:
  "rsvp_check ev st rq raw = Inr p \<Longrightarrow>
   trim raw \<noteq> [] \<and> eventId p = trim raw \<and> userId p = req_userId rq"
  by (auto simp: rsvp_check_def Let_def split: if_splits sum.splits)

lemma rsvp_commit_store:
  "store_after (rsvp_commit ev st p) = st \<or>
   (assigned_id ev \<notin> doc_id ` set (participants st) \<and>
    store_after (rsvp_commit ev st p) =
      st\<lparr>participants := participants st @ [\<lparr>doc_id = assigned_id ev, doc_rev = 1, doc_fields = p\<rparr>]\<rparr>)"
  by (cases "participants_insert_fault ev")
     (auto simp: rsvp_commit_def db_insert_def)

lemma rsvp_create_store:
  "store_after (rsvp_create ev st rq raw) = st \<or>
   (\<exists>p. rsvp_check ev st rq raw = Inr p \<and>
        assigned_id ev \<notin> doc_id ` set (participants st) \<and>
        store_after (rsvp_create ev st rq raw) =
          st\<lparr>participants := participants st @ [\<lparr>doc_id = assigned_id ev, doc_rev = 1, doc_fields = p\<rparr>]\<rparr>)"
proof (cases "rsvp_check ev st rq raw")
  case (Inl r)
  then show ?thesis by (simp add: rsvp_create_def)
next
  case (Inr p)
  then show ?thesis using rsvp_commit_store [of ev st p] by (auto simp: rsvp_create_def)
qed

lemma rsvp_create_events: "events (store_after (rsvp_create ev st rq raw)) = events st"
  using rsvp_create_store [of ev st rq raw] by auto

lemma by_event_append: "by_event (db @ db') k = by_event db k @ by_event db' k"
  by (simp add: by_event_def)

lemma rsvp_step_capacity:
  assumes e: "db_get (events st) eid = Inr e" "maxParticipants (doc_fields e) = Some c" "c \<noteq> 0"
    and v: "participants_view_fault ev = None"
    and n: "int (length (by_event (participants st) eid)) \<le> c"
  shows "int (length (by_event (participants (store_after (rsvp_create ev st rq raw))) eid)) \<le> c"
proof -
  consider (same) "store_after (rsvp_create ev st rq raw) = st"
    | (ins) p where "rsvp_check ev st rq raw = Inr p"
        "store_after (rsvp_create ev st rq raw) =
           st\<lparr>participants := participants st @ [\<lparr>doc_id = assigned_id ev, doc_rev = 1, doc_fields = p\<rparr>]\<rparr>"
    using rsvp_create_store [of ev st rq raw] by blast
  then show ?thesis
  proof cases
    case same
    then show ?thesis using n by simp
  next
    case ins
    note f = rsvp_check_Inr [OF ins(1) v]
    show ?thesis
    proof (cases "trim raw = eid")
      case True
      with f e have "\<not> event_full (Some c) (length (by_event (participants st) eid))" by auto
      with e(3) have "int (length (by_event (participants st) eid)) < c"
        by (simp add: event_full_def)
      then show ?thesis using ins(2) by (simp add: by_event_append by_event_def)
    next
      case False
      with f have "eventId p \<noteq> eid" by simp
      then show ?thesis using ins(2) n by (simp add: by_event_append by_event_def)
    qed
  qed
qed

lemma run_rsvp_capacity:
  assumes "db_get (events st) eid = Inr e" "maxParticipants (doc_fields e) = Some c" "c \<noteq> 0"
    and "list_all rsvp_with_lookup ops"
    and "int (length (by_event (participants st) eid)) \<le> c"
  shows "int (length (by_event (participants (run v st ops)) eid)) \<le> c"
  using assms
proof (induction ops arbitrary: st)
  case Nil
  then show ?case by simp
next
  case (Cons x xs)
  from Cons.prems(4) obtain ev rq raw where x: "x = Rsvp ev rq raw" and v: "participants_view_fault ev = None"
    by (cases x) auto
  let ?st = "store_after (rsvp_create ev st rq raw)"
  have "db_get (events ?st) eid = Inr e" using Cons.prems(1) by (simp add: rsvp_create_events)
  moreover have "int (length (by_event (participants ?st) eid)) \<le> c"
    using rsvp_step_capacity [OF Cons.prems(1-3) v Cons.prems(5)] .
  ultimately show ?case using Cons.IH [of ?st] Cons.prems x by simp
qed

lemma rsvp_full_rejected:
  assumes "db_get (events st) (trim raw) = Inr e" "maxParticipants (doc_fields e) = Some c" "c \<noteq> 0"
    and "trim raw \<noteq> []"
    and "events_get_fault ev = None" "participants_view_fault ev = None"
    and "c \<le> int (length (by_event (participants st) (trim raw)))"
  shows "rsvp_create ev st rq raw =
           \<lparr>reply = Response 400 (Error (if list_ex (\<lambda>row. userId (doc_fields row) = req_userId rq)
                                               (by_event (participants st) (trim raw))
                                         then ''Already RSVP'd to this event'' else ''Event is full'')),
            store_after = st, logged = []\<rparr>"
  using assms by (simp add: rsvp_create_def rsvp_check_def Let_def event_full_def)

section \<open>The small deployment, evaluated\<close>

lemmas example_defs = alice_def bob_def carol_def user_doc_def standup_def rsvp_doc_def
  base_store_def open_store_def full_store_def crowded_store_def doubled_store_def
  view_down_def destroy_down_def stuck_def reliable_def issued_def any_date_def no_seats_def retitle_def

lemma trim_e1: "trim ''e1'' = ''e1''"
  by (simp add: trim_def is_space_def)

section \<open>Capacity\<close>

text \<open>
  C1, as stated, fails. The seat of the stand-up is taken by Bob. When the store rejects
  the \<^verbatim>\<open>by_event\<close> query, Carol's RSVP is answered with 201 and the event holds two
  participants for one seat. The same happens with a store that answers every call, when
  the handlers of Bob's and Carol's requests overlap: both read an empty event, both insert.
\<close>

theorem rsvp_capacity_counterexample:
  "maxParticipants (doc_fields standup) = Some 1 \<and>
   status (reply (rsvp_create (view_down ''t2'' ''p2'') full_store carol ''e1'')) = 201 \<and>
   length (by_event (participants (store_after
      (rsvp_create (view_down ''t2'' ''p2'') full_store carol ''e1''))) ''e1'') = 2 \<and>
   status (reply (fst (rsvp_overlapped (reliable ''t1'' ''p1'') bob ''e1''
      (reliable ''t2'' ''p2'') carol ''e1'' open_store))) = 201 \<and>
   status (reply (snd (rsvp_overlapped (reliable ''t1'' ''p1'') bob ''e1''
      (reliable ''t2'' ''p2'') carol ''e1'' open_store))) = 201 \<and>
   length (by_event (participants (store_after (snd
      (rsvp_overlapped (reliable ''t1'' ''p1'') bob ''e1''
         (reliable ''t2'' ''p2'') carol ''e1'' open_store)))) ''e1'') = 2"
  by (simp add: rsvp_overlapped_def rsvp_create_def rsvp_check_def rsvp_commit_def db_get_def
      db_insert_def by_event_def event_full_def trim_e1 example_defs)

text \<open>
  C1, amended. Take an event whose capacity \<open>c\<close> is set. RSVP creations that are served
  one after the other, and whose \<^verbatim>\<open>by_event\<close> query the store answers, never take the number
  of the event's participants above \<open>c\<close> if it was not above \<open>c\<close> before. Such a call that
  finds \<open>c\<close> participants or more is answered with 400, inserts nothing and logs nothing;
  the message is \<^verbatim>\<open>Event is full\<close>, unless the caller already holds an RSVP, which is
  reported first.
\<close>

theorem rsvp_capacity_sequential:
  assumes "db_get (events st) eid = Inr e"
    and "maxParticipants (doc_fields e) = Some c"
    and "c \<noteq> 0"
  shows "(list_all rsvp_with_lookup ops \<and> int (length (by_event (participants st) eid)) \<le> c \<longrightarrow>
            int (length (by_event (participants (run isISO8601 st ops)) eid)) \<le> c) \<and>
         (trim raw = eid \<and> eid \<noteq> [] \<and> events_get_fault ev = None \<and>
          participants_view_fault ev = None \<and>
          c \<le> int (length (by_event (participants st) eid)) \<longrightarrow>
            rsvp_create ev st rq raw =
              \<lparr>reply = Response 400
                 (Error (if list_ex (\<lambda>row. userId (doc_fields row) = req_userId rq)
                              (by_event (participants st) eid)
                         then ''Already RSVP'd to this event'' else ''Event is full'')),
               store_after = st, logged = []\<rparr>)"
proof (intro conjI impI)
  assume "list_all rsvp_with_lookup ops \<and> int (length (by_event (participants st) eid)) \<le> c"
  then show "int (length (by_event (participants (run isISO8601 st ops)) eid)) \<le> c"
    using run_rsvp_capacity [OF assms] by blast
next
  assume h: "trim raw = eid \<and> eid \<noteq> [] \<and> events_get_fault ev = None \<and>
          participants_view_fault ev = None \<and>
          c \<le> int (length (by_event (participants st) eid))"
  then have "db_get (events st) (trim raw) = Inr e" using assms(1) by simp
  from rsvp_full_rejected [OF this assms(2,3), of ev rq] h
  show "rsvp_create ev st rq raw =
              \<lparr>reply = Response 400
                 (Error (if list_ex (\<lambda>row. userId (doc_fields row) = req_userId rq)
                              (by_event (participants st) eid)
                         then ''Already RSVP'd to this event'' else ''Event is full'')),
               store_after = st, logged = []\<rparr>"
    by simp
qed

text \<open>
  C1, an instance: with Bob on the only seat, Carol's and Alice's RSVPs leave the event at
  one participant, and Carol is told that the event is full.
\<close>

theorem rsvp_capacity_sequential_witness:
  "db_get (events full_store) ''e1'' = Inr standup \<and>
   maxParticipants (doc_fields standup) = Some 1 \<and>
   list_all rsvp_with_lookup
     [Rsvp (reliable ''t2'' ''p2'') carol ''e1'', Rsvp (reliable ''t3'' ''p3'') alice '' e1''] \<and>
   int (length (by_event (participants full_store) ''e1'')) \<le> 1 \<and>
   int (length (by_event (participants (run any_date full_store
     [Rsvp (reliable ''t2'' ''p2'') carol ''e1'', Rsvp (reliable ''t3'' ''p3'') alice '' e1''])) ''e1'')) \<le> 1 \<and>
   rsvp_create (reliable ''t2'' ''p2'') full_store carol ''e1'' =
     \<lparr>reply = Response 400 (Error ''Event is full''), store_after = full_store, logged = []\<rparr>"
proof -
  have e: "db_get (events full_store) ''e1'' = Inr standup"
    by (simp add: db_get_def example_defs)
  have c: "maxParticipants (doc_fields standup) = Some 1"
    by (simp add: standup_def)
  have ops: "list_all rsvp_with_lookup
     [Rsvp (reliable ''t2'' ''p2'') carol ''e1'', Rsvp (reliable ''t3'' ''p3'') alice '' e1'']"
    by (simp add: reliable_def)
  have n: "int (length (by_event (participants full_store) ''e1'')) \<le> 1"
    by (simp add: by_event_def example_defs)
  have one: "int (length (by_event (participants full_store) ''e1'')) = 1"
    by (simp add: by_event_def example_defs)
  have nodup: "\<not> list_ex (\<lambda>row. userId (doc_fields row) = req_userId carol)
                  (by_event (participants full_store) ''e1'')"
    by (simp add: by_event_def example_defs)
  have r: "events_get_fault (reliable ''t2'' ''p2'') = None \<and>
           participants_view_fault (reliable ''t2'' ''p2'') = None"
    by (simp add: reliable_def)
  have k: "(1::int) \<noteq> 0" by simp
  note T = rsvp_capacity_sequential [OF e c k, of
        "[Rsvp (reliable ''t2'' ''p2'') carol ''e1'', Rsvp (reliable ''t3'' ''p3'') alice '' e1'']"
        any_date "''e1''" "reliable ''t2'' ''p2''" carol]
  have A: "int (length (by_event (participants (run any_date full_store
     [Rsvp (reliable ''t2'' ''p2'') carol ''e1'', Rsvp (reliable ''t3'' ''p3'') alice '' e1''])) ''e1'')) \<le> 1"
    using T ops n by blast
  have B: "rsvp_create (reliable ''t2'' ''p2'') full_store carol ''e1'' =
     \<lparr>reply = Response 400 (Error ''Event is full''), store_after = full_store, logged = []\<rparr>"
    using T trim_e1 r one nodup by (simp del: run.simps)
  show ?thesis using e c ops n A B by blast
qed

section \<open>What each request does to the participants\<close>

lemma destroy_each_unique_pairs:
  "unique_pairs db \<Longrightarrow> unique_pairs (fst (destroy_each fault db rows))"
proof (induction rows arbitrary: db)
  case Nil
  then show ?case by simp
next
  case (Cons row rows)
  show ?case
  proof (cases "attempt (fault (doc_id row)) (db_destroy db (doc_id row) (doc_rev row))")
    case (Inl e)
    then show ?thesis using Cons.IH [OF Cons.prems]
      by (cases "destroy_each fault db rows") auto
  next
    case (Inr db1)
    then have "db1 = filter (\<lambda>x. doc_id x \<noteq> doc_id row) db"
      by (auto simp: attempt_Inr dest: db_destroy_Inr)
    then have "unique_pairs db1" using Cons.prems by (simp add: unique_pairs_filter)
    then show ?thesis using Inr Cons.IH [of db1] by simp
  qed
qed

lemma delete_participants_unique_pairs:
  "unique_pairs (participants st) \<Longrightarrow> unique_pairs (fst (delete_participants ev st i))"
  using destroy_each_unique_pairs [of "participants st" "participants_destroy_fault ev"
      "by_event (participants st) i"]
  by (cases "participants_view_fault ev") (auto simp: delete_participants_def split: prod.splits)

lemma delete_event_unique_pairs:
  assumes "unique_pairs (participants st)"
  shows "unique_pairs (participants (store_after (delete_event ev st rq i)))"
proof (cases "attempt (events_get_fault ev) (db_get (events st) i)")
  case (Inl e)
  then show ?thesis using assms by (simp add: delete_event_def delete_failed_def)
next
  case (Inr d)
  show ?thesis
  proof (cases "creatorId (doc_fields d) \<noteq> req_userId rq")
    case True
    then show ?thesis using Inr assms by (simp add: delete_event_def)
  next
    case False
    then show ?thesis using Inr delete_participants_unique_pairs [OF assms, of ev i]
      by (cases "delete_participants ev st i")
         (auto simp: delete_event_def delete_failed_def split: sum.splits)
  qed
qed

lemma cancel_by_id_unique_pairs:
  "unique_pairs (participants st) \<Longrightarrow>
   unique_pairs (participants (store_after (cancel_by_id ev st rq i)))"
  by (auto simp: cancel_by_id_def cancel_failed_def attempt_Inr unique_pairs_filter
      split: sum.splits dest!: db_destroy_Inr)

lemma cancel_by_pair_unique_pairs:
  "unique_pairs (participants st) \<Longrightarrow>
   unique_pairs (participants (store_after (cancel_by_pair ev st rq eid uid)))"
  by (auto simp: cancel_by_pair_def attempt_Inr unique_pairs_filter
      split: sum.splits option.splits dest!: db_destroy_Inr)

lemma update_event_participants:
  "participants (store_after (update_event v ev st rq i b)) = participants st"
  by (auto simp: update_event_def update_failed_def Let_def split: sum.splits)

lemma rsvp_create_unique_pairs:
  assumes u: "unique_pairs (participants st)" and v: "participants_view_fault ev = None"
  shows "unique_pairs (participants (store_after (rsvp_create ev st rq raw)))"
proof -
  consider (same) "store_after (rsvp_create ev st rq raw) = st"
    | (ins) p where "rsvp_check ev st rq raw = Inr p"
        "store_after (rsvp_create ev st rq raw) =
           st\<lparr>participants := participants st @ [\<lparr>doc_id = assigned_id ev, doc_rev = 1, doc_fields = p\<rparr>]\<rparr>"
    using rsvp_create_store [of ev st rq raw] by blast
  then show ?thesis
  proof cases
    case same
    then show ?thesis using u by simp
  next
    case ins
    note f = rsvp_check_Inr [OF ins(1) v]
    have "(eventId p, userId p) \<notin> (\<lambda>d. (eventId (doc_fields d), userId (doc_fields d))) ` set (participants st)"
    proof
      assume "(eventId p, userId p) \<in> (\<lambda>d. (eventId (doc_fields d), userId (doc_fields d))) ` set (participants st)"
      then obtain d where d: "d \<in> set (participants st)" "eventId (doc_fields d) = eventId p"
          "userId (doc_fields d) = userId p" by auto
      with f have "d \<in> set (by_event (participants st) (trim raw))" by (simp add: by_event_def)
      with d f show False by (auto simp: list_ex_iff)
    qed
    then show ?thesis using u ins(2) by (simp add: unique_pairs_def)
  qed
qed

lemma apply_op_unique_pairs:
  assumes "unique_pairs (participants st)" and "lookup_answered x"
  shows "unique_pairs (participants (store_after (apply_op v st x)))"
  using assms
  by (cases x)
     (simp_all add: rsvp_create_unique_pairs cancel_by_id_unique_pairs cancel_by_pair_unique_pairs
        update_event_participants delete_event_unique_pairs)

lemma run_unique_pairs:
  "unique_pairs (participants st) \<Longrightarrow> list_all lookup_answered ops \<Longrightarrow>
   unique_pairs (participants (run v st ops))"
proof (induction ops arbitrary: st)
  case Nil
  then show ?case by simp
next
  case (Cons x xs)
  then show ?case by (simp add: apply_op_unique_pairs)
qed

lemma rsvp_duplicate_rejected:
  assumes "trim raw \<noteq> []" "events_get_fault ev = None" "participants_view_fault ev = None"
    and "db_get (events st) (trim raw) = Inr e"
    and "p \<in> set (participants st)" "eventId (doc_fields p) = trim raw" "userId (doc_fields p) = req_userId rq"
  shows "rsvp_create ev st rq raw =
           \<lparr>reply = Response 400 (Error ''Already RSVP'd to this event''), store_after = st, logged = []\<rparr>"
proof -
  have "p \<in> set (by_event (participants st) (trim raw))" using assms by (simp add: by_event_def)
  then have "list_ex (\<lambda>row. userId (doc_fields row) = req_userId rq) (by_event (participants st) (trim raw))"
    using assms(7) by (auto simp: list_ex_iff)
  then show ?thesis using assms(1-4) by (simp add: rsvp_create_def rsvp_check_def Let_def)
qed

lemma rsvp_created:
  assumes "status (reply (rsvp_create ev st rq raw)) = 201"
  shows "\<exists>p e. rsvp_check ev st rq raw = Inr p \<and>
           trim raw \<noteq> [] \<and> db_get (events st) (trim raw) = Inr e \<and>
           store_after (rsvp_create ev st rq raw) =
             st\<lparr>participants := participants st @ [\<lparr>doc_id = assigned_id ev, doc_rev = 1, doc_fields = p\<rparr>]\<rparr>"
proof (cases "rsvp_check ev st rq raw")
  case (Inl r)
  then have "status r = 201" using assms by (simp add: rsvp_create_def)
  with Inl show ?thesis
    by (auto simp: rsvp_check_def Let_def split: if_splits sum.splits)
next
  case (Inr p)
  have "\<exists>e. db_get (events st) (trim raw) = Inr e" using Inr
    by (auto simp: rsvp_check_def Let_def attempt_Inr split: if_splits sum.splits)
  moreover have "trim raw \<noteq> []" using Inr rsvp_check_fields by blast
  moreover have "store_after (rsvp_create ev st rq raw) =
             st\<lparr>participants := participants st @ [\<lparr>doc_id = assigned_id ev, doc_rev = 1, doc_fields = p\<rparr>]\<rparr>"
    using assms Inr
    by (cases "participants_insert_fault ev")
       (auto simp: rsvp_create_def rsvp_commit_def db_insert_def split: if_splits)
  ultimately show ?thesis using Inr by blast
qed

section \<open>One RSVP per event and user\<close>

text \<open>
  C2, as stated, fails. Bob holds an RSVP for the stand-up. When the store rejects the
  \<^verbatim>\<open>by_event\<close> query, his second RSVP is answered with 201 and stored next to the first.
  With a store that answers every call, two overlapping requests of Bob both find no RSVP
  of his and both insert one.
\<close>

theorem rsvp_duplicate_counterexample:
  "reply (rsvp_create (view_down ''t2'' ''p2'') full_store bob ''e1'') =
     Response 201 (RsvpSuccessful ''p2'' (doc_fields (rsvp_doc ''p2'' bob ''t2''))) \<and>
   store_after (rsvp_create (view_down ''t2'' ''p2'') full_store bob ''e1'') = doubled_store \<and>
   \<not> unique_pairs (participants doubled_store) \<and>
   rsvp_overlapped (reliable ''t1'' ''p1'') bob ''e1'' (reliable ''t2'' ''p2'') bob ''e1'' open_store =
     (\<lparr>reply = Response 201 (RsvpSuccessful ''p1'' (doc_fields (rsvp_doc ''p1'' bob ''t1''))),
       store_after = full_store, logged = []\<rparr>,
      \<lparr>reply = Response 201 (RsvpSuccessful ''p2'' (doc_fields (rsvp_doc ''p2'' bob ''t2''))),
       store_after = doubled_store, logged = []\<rparr>)"
  by (simp add: rsvp_overlapped_def rsvp_create_def rsvp_check_def rsvp_commit_def db_get_def
      db_insert_def by_event_def event_full_def unique_pairs_def trim_e1 example_defs)

text \<open>
  C2, amended. As long as requests are served one after the other and the store answers the
  \<^verbatim>\<open>by_event\<close> query of every RSVP creation, no sequence of RSVP creations, cancellations,
  event updates and event deletions leaves two participants with the same event and user.
  An RSVP creation by a user who holds a participant for the event, with the event read and
  the query answered, gets 400 \<^verbatim>\<open>Already RSVP'd to this event\<close> and inserts nothing; so does
  the second of two RSVP creations of one user for one event, the first answered with 201.
\<close>

theorem rsvp_unique_sequential:
  "(unique_pairs (participants st) \<and> list_all lookup_answered ops \<longrightarrow>
      unique_pairs (participants (run isISO8601 st ops))) \<and>
   (trim raw \<noteq> [] \<and> events_get_fault ev = None \<and> participants_view_fault ev = None \<and>
    db_get (events st) (trim raw) = Inr e \<and>
    (\<exists>p \<in> set (participants st).
        eventId (doc_fields p) = trim raw \<and> userId (doc_fields p) = req_userId rq) \<longrightarrow>
      rsvp_create ev st rq raw =
        \<lparr>reply = Response 400 (Error ''Already RSVP'd to this event''),
         store_after = st, logged = []\<rparr>) \<and>
   (status (reply (rsvp_create ev st rq raw)) = 201 \<and>
    events_get_fault ev' = None \<and> participants_view_fault ev' = None \<longrightarrow>
      rsvp_create ev' (store_after (rsvp_create ev st rq raw)) rq raw =
        \<lparr>reply = Response 400 (Error ''Already RSVP'd to this event''),
         store_after = store_after (rsvp_create ev st rq raw), logged = []\<rparr>)"
proof (intro conjI impI)
  assume "unique_pairs (participants st) \<and> list_all lookup_answered ops"
  then show "unique_pairs (participants (run isISO8601 st ops))"
    by (simp add: run_unique_pairs)
next
  assume h: "trim raw \<noteq> [] \<and> events_get_fault ev = None \<and> participants_view_fault ev = None \<and>
    db_get (events st) (trim raw) = Inr e \<and>
    (\<exists>p \<in> set (participants st).
        eventId (doc_fields p) = trim raw \<and> userId (doc_fields p) = req_userId rq)"
  then obtain p where "p \<in> set (participants st)" "eventId (doc_fields p) = trim raw"
      "userId (doc_fields p) = req_userId rq" by blast
  with h show "rsvp_create ev st rq raw =
        \<lparr>reply = Response 400 (Error ''Already RSVP'd to this event''),
         store_after = st, logged = []\<rparr>"
    using rsvp_duplicate_rejected [of raw ev st e p rq] by blast
next
  let ?st = "store_after (rsvp_create ev st rq raw)"
  assume h: "status (reply (rsvp_create ev st rq raw)) = 201 \<and>
    events_get_fault ev' = None \<and> participants_view_fault ev' = None"
  then obtain p e where c: "rsvp_check ev st rq raw = Inr p" "trim raw \<noteq> []"
      "db_get (events st) (trim raw) = Inr e"
      "?st = st\<lparr>participants := participants st @
                 [\<lparr>doc_id = assigned_id ev, doc_rev = 1, doc_fields = p\<rparr>]\<rparr>"
    using rsvp_created [of ev st rq raw] by blast
  let ?d = "\<lparr>doc_id = assigned_id ev, doc_rev = 1, doc_fields = p\<rparr>"
  have "?d \<in> set (participants ?st)" using c(4) by simp
  moreover have "eventId (doc_fields ?d) = trim raw" "userId (doc_fields ?d) = req_userId rq"
    using rsvp_check_fields [OF c(1)] by simp_all
  moreover have "db_get (events ?st) (trim raw) = Inr e" using c(3) by (simp add: rsvp_create_events)
  ultimately show "rsvp_create ev' ?st rq raw =
        \<lparr>reply = Response 400 (Error ''Already RSVP'd to this event''), store_after = ?st, logged = []\<rparr>"
    using h c(2) rsvp_duplicate_rejected [of raw ev' ?st e ?d rq] by blast
qed

text \<open>
  C2, an instance: Bob, who holds an RSVP, asks again, cancels and asks once more; no pair
  is ever doubled, his request on top of the RSVP he holds is refused, and so is the second
  of two requests in a row on the empty event.
\<close>

theorem rsvp_unique_sequential_witness:
  "unique_pairs (participants full_store) \<and>
   list_all lookup_answered
     [Rsvp (reliable ''t2'' ''p2'') bob ''e1'', CancelById (reliable ''t3'' ''p3'') bob ''p1'',
      Rsvp (reliable ''t4'' ''p4'') bob ''e1''] \<and>
   unique_pairs (participants (run any_date full_store
     [Rsvp (reliable ''t2'' ''p2'') bob ''e1'', CancelById (reliable ''t3'' ''p3'') bob ''p1'',
      Rsvp (reliable ''t4'' ''p4'') bob ''e1''])) \<and>
   rsvp_create (reliable ''t2'' ''p2'') full_store bob ''e1'' =
     \<lparr>reply = Response 400 (Error ''Already RSVP'd to this event''),
      store_after = full_store, logged = []\<rparr> \<and>
   status (reply (rsvp_create (reliable ''t1'' ''p1'') open_store bob ''e1'')) = 201 \<and>
   rsvp_create (reliable ''t2'' ''p2'')
       (store_after (rsvp_create (reliable ''t1'' ''p1'') open_store bob ''e1'')) bob ''e1'' =
     \<lparr>reply = Response 400 (Error ''Already RSVP'd to this event''),
      store_after = store_after (rsvp_create (reliable ''t1'' ''p1'') open_store bob ''e1''),
      logged = []\<rparr>"
proof -
  have u: "unique_pairs (participants full_store)"
    by (simp add: unique_pairs_def example_defs)
  have ops: "list_all lookup_answered
     [Rsvp (reliable ''t2'' ''p2'') bob ''e1'', CancelById (reliable ''t3'' ''p3'') bob ''p1'',
      Rsvp (reliable ''t4'' ''p4'') bob ''e1'']"
    by (simp add: reliable_def)
  have r: "events_get_fault (reliable ''t2'' ''p2'') = None \<and>
           participants_view_fault (reliable ''t2'' ''p2'') = None"
    by (simp add: reliable_def)
  have e: "trim ''e1'' \<noteq> [] \<and> db_get (events full_store) (trim ''e1'') = Inr standup"
    by (simp add: trim_e1 db_get_def example_defs)
  have p: "\<exists>p \<in> set (participants full_store).
             eventId (doc_fields p) = trim ''e1'' \<and> userId (doc_fields p) = req_userId bob"
    by (simp add: trim_e1 example_defs)
  have s: "status (reply (rsvp_create (reliable ''t1'' ''p1'') open_store bob ''e1'')) = 201"
    by (simp add: rsvp_create_def rsvp_check_def rsvp_commit_def db_get_def db_insert_def
        by_event_def event_full_def trim_e1 example_defs)
  note A = rsvp_unique_sequential [of full_store
      "[Rsvp (reliable ''t2'' ''p2'') bob ''e1'', CancelById (reliable ''t3'' ''p3'') bob ''p1'',
        Rsvp (reliable ''t4'' ''p4'') bob ''e1'']" any_date
      "''e1''" "reliable ''t2'' ''p2''" standup bob]
  note B = rsvp_unique_sequential [of open_store "[]" any_date
      "''e1''" "reliable ''t1'' ''p1''" standup bob "reliable ''t2'' ''p2''"]
  have 1: "unique_pairs (participants (run any_date full_store
     [Rsvp (reliable ''t2'' ''p2'') bob ''e1'', CancelById (reliable ''t3'' ''p3'') bob ''p1'',
      Rsvp (reliable ''t4'' ''p4'') bob ''e1'']))"
    using A u ops by blast
  have 2: "rsvp_create (reliable ''t2'' ''p2'') full_store bob ''e1'' =
     \<lparr>reply = Response 400 (Error ''Already RSVP'd to this event''),
      store_after = full_store, logged = []\<rparr>"
    using A r e p by blast
  have 3: "rsvp_create (reliable ''t2'' ''p2'')
       (store_after (rsvp_create (reliable ''t1'' ''p1'') open_store bob ''e1'')) bob ''e1'' =
     \<lparr>reply = Response 400 (Error ''Already RSVP'd to this event''),
      store_after = store_after (rsvp_create (reliable ''t1'' ''p1'') open_store bob ''e1''),
      logged = []\<rparr>"
    using B r s by blast
  show ?thesis using u ops 1 2 3 s by blast
qed

section \<open>The fan-out of participant deletions\<close>

lemma unique_ids_eq: "unique_ids db \<Longrightarrow> x \<in> set db \<Longrightarrow> y \<in> set db \<Longrightarrow> doc_id x = doc_id y \<Longrightarrow> x = y"
  by (auto simp: unique_ids_def distinct_map dest: inj_onD)

lemma destroy_each_result:
  assumes "unique_ids db" "set rows \<subseteq> set db" "distinct (map doc_id rows)"
  shows "fst (destroy_each fault db rows) =
           filter (\<lambda>x. \<not> (x \<in> set rows \<and> fault (doc_id x) = None)) db \<and>
         (snd (destroy_each fault db rows) = [] \<longleftrightarrow> (\<forall>r \<in> set rows. fault (doc_id r) = None))"
  using assms
proof (induction rows arbitrary: db)
  case Nil
  then show ?case by simp
next
  case (Cons row rows)
  have row: "row \<in> set db" and sub: "set rows \<subseteq> set db" using Cons.prems(2) by auto
  have dis: "distinct (map doc_id rows)" and fresh: "doc_id row \<notin> doc_id ` set rows"
    using Cons.prems(3) by auto
  show ?case
  proof (cases "fault (doc_id row)")
    case (Some c)
    have "filter (\<lambda>x. \<not> (x \<in> set (row # rows) \<and> fault (doc_id x) = None)) db =
          filter (\<lambda>x. \<not> (x \<in> set rows \<and> fault (doc_id x) = None)) db"
      using Some by (intro filter_cong) auto
    then show ?thesis
      using Some Cons.IH [OF Cons.prems(1) sub dis]
      by (cases "destroy_each fault db rows") auto
  next
    case None
    let ?db1 = "filter (\<lambda>x. doc_id x \<noteq> doc_id row) db"
    have d: "db_destroy db (doc_id row) (doc_rev row) = Inr ?db1"
      using Cons.prems(1) row by (rule db_destroy_member)
    have u1: "unique_ids ?db1" using Cons.prems(1) by (rule unique_ids_filter)
    have sub1: "set rows \<subseteq> set ?db1" using sub fresh by (auto simp: image_iff)
    have "filter (\<lambda>x. \<not> (x \<in> set rows \<and> fault (doc_id x) = None)) ?db1 =
          filter (\<lambda>x. \<not> (x \<in> set (row # rows) \<and> fault (doc_id x) = None)) db"
      unfolding filter_filter
    proof (intro filter_cong refl)
      fix x assume x: "x \<in> set db"
      have "doc_id x = doc_id row \<longleftrightarrow> x = row"
        using unique_ids_eq [OF Cons.prems(1) x row] by auto
      then show "(doc_id x \<noteq> doc_id row \<and> \<not> (x \<in> set rows \<and> fault (doc_id x) = None)) =
                 (\<not> (x \<in> set (row # rows) \<and> fault (doc_id x) = None))"
        using None by auto
    qed
    then show ?thesis
      using None d Cons.IH [OF u1 sub1 dis] by simp
  qed
qed

lemma by_event_rows:
  "unique_ids db \<Longrightarrow> set (by_event db i) \<subseteq> set db \<and> distinct (map doc_id (by_event db i))"
  by (simp add: by_event_def unique_ids_def distinct_map_filter)

lemma delete_event_result:
  assumes d: "db_get (events st) i = Inr d" and c: "creatorId (doc_fields d) = req_userId rq"
    and u: "unique_ids (participants st)"
    and f: "events_get_fault ev = None" "participants_view_fault ev = None" "events_destroy_fault ev = None"
  shows "delete_event ev st rq i =
          \<lparr>reply = Response 200 (Message ''Event and linked RSVPs deleted successfully''),
           store_after = st\<lparr>events := filter (\<lambda>x. doc_id x \<noteq> i) (events st),
             participants := filter (\<lambda>x. \<not> (x \<in> set (by_event (participants st) i) \<and>
                                  participants_destroy_fault ev (doc_id x) = None)) (participants st)\<rparr>,
           logged = (if \<forall>r \<in> set (by_event (participants st) i). participants_destroy_fault ev (doc_id r) = None
                     then [] else [''Error deleting participants:''])\<rparr>"
proof -
  let ?rows = "by_event (participants st) i"
  let ?r = "destroy_each (participants_destroy_fault ev) (participants st) ?rows"
  from by_event_rows [OF u, of i]
  have r: "fst ?r = filter (\<lambda>x. \<not> (x \<in> set ?rows \<and> participants_destroy_fault ev (doc_id x) = None)) (participants st)"
      "snd ?r = [] \<longleftrightarrow> (\<forall>r \<in> set ?rows. participants_destroy_fault ev (doc_id r) = None)"
    using destroy_each_result [OF u, of ?rows "participants_destroy_fault ev"] by auto
  have p: "delete_participants ev st i =
          (filter (\<lambda>x. \<not> (x \<in> set ?rows \<and> participants_destroy_fault ev (doc_id x) = None)) (participants st),
           if \<forall>r \<in> set ?rows. participants_destroy_fault ev (doc_id r) = None
           then [] else [''Error deleting participants:''])"
    using r f(2) by (cases ?r) (simp add: delete_participants_def)
  show ?thesis
    using d c f(1,3) db_destroy_got [OF d]
    by (simp add: delete_event_def p)
qed

lemma db_get_filter_out: "db_get (filter (\<lambda>x. doc_id x \<noteq> i) db) i = Inl (StoreError 404)"
  by (auto simp: db_get_absent)

section \<open>Deleting an event with its RSVPs\<close>

text \<open>
  C3, as stated, fails. Alice deletes her stand-up, for which Bob holds an RSVP. When the
  store rejects the \<^verbatim>\<open>by_event\<close> query, or the deletion of Bob's participant, the route
  logs one line, removes the event and answers 200; Bob's participant can still be fetched
  by its identifier and refers to an event that is gone.
\<close>

theorem delete_event_cascade_counterexample:
  "delete_event (view_down ''t3'' ''p9'') full_store alice ''e1'' =
     \<lparr>reply = Response 200 (Message ''Event and linked RSVPs deleted successfully''),
      store_after = full_store\<lparr>events := []\<rparr>, logged = [''Error deleting participants:'']\<rparr> \<and>
   delete_event (destroy_down ''t3'' ''p9'') full_store alice ''e1'' =
     \<lparr>reply = Response 200 (Message ''Event and linked RSVPs deleted successfully''),
      store_after = full_store\<lparr>events := []\<rparr>, logged = [''Error deleting participants:'']\<rparr> \<and>
   db_get (participants (full_store\<lparr>events := []\<rparr>)) ''p1'' = Inr (rsvp_doc ''p1'' bob ''t1'') \<and>
   no_orphans full_store \<and>
   \<not> no_orphans (full_store\<lparr>events := []\<rparr>)"
  by (simp add: delete_event_def delete_participants_def db_get_def db_destroy_def by_event_def
      no_orphans_def example_defs)

text \<open>
  C3, amended. When the store rejects none of the calls of the deletion (the read of the
  event, the \<^verbatim>\<open>by_event\<close> query, the deletion of each participant of the event, the deletion
  of the event), Event Deletion by the creator of an existing event is answered with 200 and
  removes the event and every participant whose \<^verbatim>\<open>eventId\<close> is the event's identifier:
  afterwards a fetch of the event or of any of those participants by identifier yields 404,
  no participant refers to the event, and if no participant referred to a missing event
  before, none does after. Identifiers are unique in the participants database; the
  identifier in the path is not empty.
\<close>

theorem delete_event_cascade:
  assumes "db_get (events st) i = Inr d"
    and "creatorId (doc_fields d) = req_userId rq"
    and "i \<noteq> []"
    and "unique_ids (participants st)"
    and "events_get_fault ev = None"
    and "participants_view_fault ev = None"
    and "events_destroy_fault ev = None"
    and "\<forall>p \<in> set (participants st).
           eventId (doc_fields p) = i \<longrightarrow> participants_destroy_fault ev (doc_id p) = None"
  shows "reply (delete_event ev st rq i) =
           Response 200 (Message ''Event and linked RSVPs deleted successfully'') \<and>
         db_get (events (store_after (delete_event ev st rq i))) i = Inl (StoreError 404) \<and>
         (\<forall>p \<in> set (participants st). eventId (doc_fields p) = i \<longrightarrow>
            db_get (participants (store_after (delete_event ev st rq i))) (doc_id p) =
              Inl (StoreError 404)) \<and>
         (\<forall>p \<in> set (participants (store_after (delete_event ev st rq i))).
            eventId (doc_fields p) \<noteq> i) \<and>
         (no_orphans st \<longrightarrow> no_orphans (store_after (delete_event ev st rq i)))"
proof -
  let ?st = "store_after (delete_event ev st rq i)"
  have rows: "set (by_event (participants st) i) = {p \<in> set (participants st). eventId (doc_fields p) = i}"
    using assms(3) by (auto simp: by_event_def)
  have "filter (\<lambda>x. \<not> (x \<in> set (by_event (participants st) i) \<and>
                       participants_destroy_fault ev (doc_id x) = None)) (participants st) =
        filter (\<lambda>x. eventId (doc_fields x) \<noteq> i) (participants st)"
    using assms(8) by (intro filter_cong refl) (auto simp: rows)
  then have r: "delete_event ev st rq i =
      \<lparr>reply = Response 200 (Message ''Event and linked RSVPs deleted successfully''),
       store_after = st\<lparr>events := filter (\<lambda>x. doc_id x \<noteq> i) (events st),
                        participants := filter (\<lambda>x. eventId (doc_fields x) \<noteq> i) (participants st)\<rparr>,
       logged = []\<rparr>"
    using delete_event_result [OF assms(1,2,4-7)] assms(8) by (simp add: rows)
  have 1: "reply (delete_event ev st rq i) =
           Response 200 (Message ''Event and linked RSVPs deleted successfully'')"
    by (simp add: r)
  have 2: "db_get (events ?st) i = Inl (StoreError 404)"
    by (simp add: r db_get_filter_out)
  have 3: "\<forall>p \<in> set (participants st). eventId (doc_fields p) = i \<longrightarrow>
            db_get (participants ?st) (doc_id p) = Inl (StoreError 404)"
  proof (intro ballI impI)
    fix p assume p: "p \<in> set (participants st)" "eventId (doc_fields p) = i"
    have "doc_id p \<notin> doc_id ` set (filter (\<lambda>x. eventId (doc_fields x) \<noteq> i) (participants st))"
    proof
      assume "doc_id p \<in> doc_id ` set (filter (\<lambda>x. eventId (doc_fields x) \<noteq> i) (participants st))"
      then obtain x where x: "x \<in> set (participants st)" "eventId (doc_fields x) \<noteq> i" "doc_id x = doc_id p"
        by auto
      then have "x = p" using unique_ids_eq [OF assms(4) x(1) p(1)] by simp
      with x p show False by simp
    qed
    then show "db_get (participants ?st) (doc_id p) = Inl (StoreError 404)"
      by (simp add: r db_get_absent)
  qed
  have 4: "\<forall>p \<in> set (participants ?st). eventId (doc_fields p) \<noteq> i"
    by (simp add: r)
  have 5: "no_orphans st \<longrightarrow> no_orphans ?st"
    by (auto simp: r no_orphans_def list_all_iff)
  show ?thesis using 1 2 3 4 5 by blast
qed

text \<open>
  C3, an instance: with a store that answers every call, Alice's deletion of the stand-up
  takes Bob's and Carol's participants with it.
\<close>

theorem delete_event_cascade_witness:
  "db_get (events crowded_store) ''e1'' = Inr standup \<and>
   creatorId (doc_fields standup) = req_userId alice \<and>
   unique_ids (participants crowded_store) \<and>
   no_orphans crowded_store \<and>
   rsvp_doc ''p2'' carol ''t2'' \<in> set (participants crowded_store) \<and>
   reply (delete_event (reliable ''t3'' ''p9'') crowded_store alice ''e1'') =
     Response 200 (Message ''Event and linked RSVPs deleted successfully'') \<and>
   db_get (events (store_after (delete_event (reliable ''t3'' ''p9'') crowded_store alice ''e1''))) ''e1'' =
     Inl (StoreError 404) \<and>
   db_get (participants (store_after (delete_event (reliable ''t3'' ''p9'') crowded_store alice ''e1'')))
     ''p2'' = Inl (StoreError 404) \<and>
   no_orphans (store_after (delete_event (reliable ''t3'' ''p9'') crowded_store alice ''e1''))"
proof -
  have d: "db_get (events crowded_store) ''e1'' = Inr standup"
    by (simp add: db_get_def example_defs)
  have c: "creatorId (doc_fields standup) = req_userId alice"
    by (simp add: example_defs)
  have i: "''e1'' \<noteq> []" by simp
  have u: "unique_ids (participants crowded_store)"
    by (simp add: unique_ids_def example_defs)
  have f: "events_get_fault (reliable ''t3'' ''p9'') = None"
      "participants_view_fault (reliable ''t3'' ''p9'') = None"
      "events_destroy_fault (reliable ''t3'' ''p9'') = None"
    by (simp_all add: reliable_def)
  have g: "\<forall>p \<in> set (participants crowded_store). eventId (doc_fields p) = ''e1'' \<longrightarrow>
             participants_destroy_fault (reliable ''t3'' ''p9'') (doc_id p) = None"
    by (simp add: reliable_def)
  have o: "no_orphans crowded_store"
    by (simp add: no_orphans_def example_defs)
  have p: "rsvp_doc ''p2'' carol ''t2'' \<in> set (participants crowded_store)"
      "eventId (doc_fields (rsvp_doc ''p2'' carol ''t2'')) = ''e1''"
      "doc_id (rsvp_doc ''p2'' carol ''t2'') = ''p2''"
    by (simp_all add: example_defs)
  note T = delete_event_cascade [OF d c i u f g]
  have "db_get (participants (store_after (delete_event (reliable ''t3'' ''p9'') crowded_store alice ''e1'')))
     (doc_id (rsvp_doc ''p2'' carol ''t2'')) = Inl (StoreError 404)"
    using T p(1,2) by blast
  then have "db_get (participants (store_after (delete_event (reliable ''t3'' ''p9'') crowded_store alice ''e1'')))
     ''p2'' = Inl (StoreError 404)"
    by (simp only: p(3))
  then show ?thesis using T d c u o p(1) by blast
qed

section \<open>Deleting an event when participant deletions fail\<close>

text \<open>
  C4, as stated, fails in one part: the failures are not caught and logged one by one. The
  deletions are awaited together by \<^verbatim>\<open>Promise.all\<close> inside a single \<^verbatim>\<open>try\<close>. Alice deletes the
  stand-up while the store rejects the deletion of both participants: the console receives
  one line for the two failures.
\<close>

theorem delete_event_partial_counterexample:
  "participants_destroy_fault (destroy_down ''t3'' ''p9'') ''p1'' = Some 500 \<and>
   participants_destroy_fault (destroy_down ''t3'' ''p9'') ''p2'' = Some 500 \<and>
   delete_event (destroy_down ''t3'' ''p9'') crowded_store alice ''e1'' =
     \<lparr>reply = Response 200 (Message ''Event and linked RSVPs deleted successfully''),
      store_after = crowded_store\<lparr>events := []\<rparr>,
      logged = [''Error deleting participants:'']\<rparr>"
  by (simp add: delete_event_def delete_participants_def db_get_def db_destroy_def by_event_def
      example_defs)

text \<open>
  C4, amended. During Event Deletion by the creator, with the event read, the \<^verbatim>\<open>by_event\<close>
  query answered and the deletion of the event accepted, a rejected deletion of one
  participant blocks neither the deletion of the other participants nor that of the event:
  every participant of the event whose deletion the store accepts is gone afterwards, those
  whose deletion it rejects remain, the event is gone, and the response is the 200 of a
  successful deletion. The rejections are caught together, by the one \<^verbatim>\<open>catch\<close> around the
  whole fan-out: the console receives a single line if any deletion was rejected, none
  otherwise. Identifiers are unique in the participants database.
\<close>

theorem delete_event_partial:
  assumes "db_get (events st) i = Inr d"
    and "creatorId (doc_fields d) = req_userId rq"
    and "unique_ids (participants st)"
    and "events_get_fault ev = None"
    and "participants_view_fault ev = None"
    and "events_destroy_fault ev = None"
  shows "reply (delete_event ev st rq i) =
           Response 200 (Message ''Event and linked RSVPs deleted successfully'') \<and>
         db_get (events (store_after (delete_event ev st rq i))) i = Inl (StoreError 404) \<and>
         (\<forall>p \<in> set (by_event (participants st) i).
            participants_destroy_fault ev (doc_id p) = None \<longrightarrow>
              db_get (participants (store_after (delete_event ev st rq i))) (doc_id p) =
                Inl (StoreError 404)) \<and>
         (\<forall>p \<in> set (participants st).
            participants_destroy_fault ev (doc_id p) \<noteq> None \<longrightarrow>
              p \<in> set (participants (store_after (delete_event ev st rq i)))) \<and>
         logged (delete_event ev st rq i) =
           (if \<forall>p \<in> set (by_event (participants st) i). participants_destroy_fault ev (doc_id p) = None
            then [] else [''Error deleting participants:''])"
proof -
  let ?st = "store_after (delete_event ev st rq i)"
  let ?rows = "by_event (participants st) i"
  note r = delete_event_result [OF assms]
  have 1: "reply (delete_event ev st rq i) =
           Response 200 (Message ''Event and linked RSVPs deleted successfully'')"
    by (simp add: r)
  have 2: "db_get (events ?st) i = Inl (StoreError 404)"
    by (simp add: r db_get_filter_out)
  have 3: "\<forall>p \<in> set ?rows. participants_destroy_fault ev (doc_id p) = None \<longrightarrow>
              db_get (participants ?st) (doc_id p) = Inl (StoreError 404)"
  proof (intro ballI impI)
    fix p assume p: "p \<in> set ?rows" "participants_destroy_fault ev (doc_id p) = None"
    then have pin: "p \<in> set (participants st)" by (simp add: by_event_def)
    have "doc_id p \<notin> doc_id ` set (filter (\<lambda>x. \<not> (x \<in> set ?rows \<and>
              participants_destroy_fault ev (doc_id x) = None)) (participants st))"
    proof
      assume "doc_id p \<in> doc_id ` set (filter (\<lambda>x. \<not> (x \<in> set ?rows \<and>
              participants_destroy_fault ev (doc_id x) = None)) (participants st))"
      then obtain x where x: "x \<in> set (participants st)"
          "\<not> (x \<in> set ?rows \<and> participants_destroy_fault ev (doc_id x) = None)" "doc_id x = doc_id p"
        by auto
      then have "x = p" using unique_ids_eq [OF assms(3) x(1) pin] by simp
      with x p show False by simp
    qed
    then show "db_get (participants ?st) (doc_id p) = Inl (StoreError 404)"
      by (simp add: r db_get_absent)
  qed
  have 4: "\<forall>p \<in> set (participants st). participants_destroy_fault ev (doc_id p) \<noteq> None \<longrightarrow>
              p \<in> set (participants ?st)"
    by (simp add: r)
  have 5: "logged (delete_event ev st rq i) =
           (if \<forall>p \<in> set ?rows. participants_destroy_fault ev (doc_id p) = None
            then [] else [''Error deleting participants:''])"
    by (simp add: r)
  show ?thesis using 1 2 3 4 5 by blast
qed

text \<open>
  C4, an instance: the store rejects the deletion of Bob's participant only. Carol's is
  deleted, Bob's stays, the stand-up is removed and the console holds one line.
\<close>

theorem delete_event_partial_witness:
  "db_get (events crowded_store) ''e1'' = Inr standup \<and>
   creatorId (doc_fields standup) = req_userId alice \<and>
   unique_ids (participants crowded_store) \<and>
   participants_destroy_fault (stuck ''p1'' ''t3'' ''p9'') ''p1'' \<noteq> None \<and>
   participants_destroy_fault (stuck ''p1'' ''t3'' ''p9'') ''p2'' = None \<and>
   reply (delete_event (stuck ''p1'' ''t3'' ''p9'') crowded_store alice ''e1'') =
     Response 200 (Message ''Event and linked RSVPs deleted successfully'') \<and>
   db_get (events (store_after (delete_event (stuck ''p1'' ''t3'' ''p9'') crowded_store alice ''e1'')))
     ''e1'' = Inl (StoreError 404) \<and>
   db_get (participants (store_after (delete_event (stuck ''p1'' ''t3'' ''p9'') crowded_store alice ''e1'')))
     ''p2'' = Inl (StoreError 404) \<and>
   rsvp_doc ''p1'' bob ''t1'' \<in>
     set (participants (store_after (delete_event (stuck ''p1'' ''t3'' ''p9'') crowded_store alice ''e1''))) \<and>
   logged (delete_event (stuck ''p1'' ''t3'' ''p9'') crowded_store alice ''e1'') =
     [''Error deleting participants:'']"
proof -
  let ?ev = "stuck ''p1'' ''t3'' ''p9''"
  have d: "db_get (events crowded_store) ''e1'' = Inr standup"
    by (simp add: db_get_def example_defs)
  have c: "creatorId (doc_fields standup) = req_userId alice"
    by (simp add: example_defs)
  have u: "unique_ids (participants crowded_store)"
    by (simp add: unique_ids_def example_defs)
  have f: "events_get_fault ?ev = None" "participants_view_fault ?ev = None"
      "events_destroy_fault ?ev = None"
    by (simp_all add: stuck_def reliable_def)
  have s: "participants_destroy_fault ?ev ''p1'' \<noteq> None" "participants_destroy_fault ?ev ''p2'' = None"
    by (simp_all add: stuck_def reliable_def)
  have b: "rsvp_doc ''p1'' bob ''t1'' \<in> set (participants crowded_store)"
      "rsvp_doc ''p1'' bob ''t1'' \<in> set (by_event (participants crowded_store) ''e1'')"
      "doc_id (rsvp_doc ''p1'' bob ''t1'') = ''p1''"
    by (simp_all add: by_event_def example_defs)
  have p: "rsvp_doc ''p2'' carol ''t2'' \<in> set (by_event (participants crowded_store) ''e1'')"
      "doc_id (rsvp_doc ''p2'' carol ''t2'') = ''p2''"
    by (simp_all add: by_event_def example_defs)
  note T = delete_event_partial [OF d c u f]
  have sb: "participants_destroy_fault ?ev (doc_id (rsvp_doc ''p1'' bob ''t1'')) \<noteq> None"
    using s(1) by (simp add: b(3))
  have sp: "participants_destroy_fault ?ev (doc_id (rsvp_doc ''p2'' carol ''t2'')) = None"
    using s(2) by (simp add: p(2))
  have "db_get (participants (store_after (delete_event ?ev crowded_store alice ''e1'')))
          (doc_id (rsvp_doc ''p2'' carol ''t2'')) = Inl (StoreError 404)"
    using T p(1) sp by blast
  then have 1: "db_get (participants (store_after (delete_event ?ev crowded_store alice ''e1''))) ''p2'' =
             Inl (StoreError 404)"
    by (simp only: p(2))
  have 2: "rsvp_doc ''p1'' bob ''t1'' \<in>
             set (participants (store_after (delete_event ?ev crowded_store alice ''e1'')))"
    using T b(1) sb by blast
  have "\<not> (\<forall>p \<in> set (by_event (participants crowded_store) ''e1'').
              participants_destroy_fault ?ev (doc_id p) = None)"
  proof
    assume a: "\<forall>p \<in> set (by_event (participants crowded_store) ''e1'').
                 participants_destroy_fault ?ev (doc_id p) = None"
    have "participants_destroy_fault ?ev (doc_id (rsvp_doc ''p1'' bob ''t1'')) = None"
      by (rule bspec [OF a b(2)])
    with sb show False by (rule notE)
  qed
  then have 3: "logged (delete_event ?ev crowded_store alice ''e1'') = [''Error deleting participants:'']"
    using T by simp
  show ?thesis using T d c u s 1 2 3 by blast
qed

section \<open>Cancelling an RSVP\<close>

lemma find_filter_Cons: "filter P xs = m # ms \<Longrightarrow> find P xs = Some m"
  by (induction xs) (auto split: if_splits)

lemma find_filter_Nil: "filter P xs = [] \<Longrightarrow> find P xs = None"
  by (induction xs) (auto split: if_splits)

lemma cancel_by_id_absent:
  assumes "attempt (participants_get_fault ev) (db_get (participants st) i) = Inl (StoreError 404)"
  shows "cancel_by_id ev st rq i =
           \<lparr>reply = Response 404 (Error ''RSVP not found''), store_after = st, logged = []\<rparr>"
  using assms by (simp add: cancel_by_id_def cancel_failed_def)

lemma cancel_by_id_foreign:
  assumes "participants_get_fault ev = None" and "db_get (participants st) i = Inr p"
    and "userId (doc_fields p) \<noteq> req_userId rq"
  shows "cancel_by_id ev st rq i =
           \<lparr>reply = Response 403 (Error ''Not authorized to cancel this RSVP''),
            store_after = st, logged = []\<rparr>"
  using assms by (simp add: cancel_by_id_def)

lemma cancel_by_pair_foreign:
  "uid \<noteq> req_userId rq \<Longrightarrow>
   cancel_by_pair ev st rq eid uid =
     \<lparr>reply = Response 403 (Error ''Not authorized to cancel this RSVP''),
      store_after = st, logged = []\<rparr>"
  by (simp add: cancel_by_pair_def)

lemma cancel_by_pair_absent:
  assumes "uid = req_userId rq" and "participants_view_fault ev = None"
    and "filter (\<lambda>row. userId (doc_fields row) = uid) (by_event (participants st) eid) = []"
  shows "cancel_by_pair ev st rq eid uid =
           \<lparr>reply = Response 404 (Error ''RSVP not found''), store_after = st, logged = []\<rparr>"
  using assms(1,2) find_filter_Nil [OF assms(3)] by (simp add: cancel_by_pair_def)

lemma cancel_by_pair_first:
  assumes "uid = req_userId rq" and "participants_view_fault ev = None"
    and u: "unique_ids (participants st)"
    and m: "filter (\<lambda>row. userId (doc_fields row) = uid) (by_event (participants st) eid) = m # ms"
    and "participants_destroy_fault ev (doc_id m) = None"
  shows "cancel_by_pair ev st rq eid uid =
           \<lparr>reply = Response 200 (Message ''RSVP cancelled successfully''),
            store_after = st\<lparr>participants := filter (\<lambda>x. doc_id x \<noteq> doc_id m) (participants st)\<rparr>,
            logged = []\<rparr>"
proof -
  have "m \<in> set (filter (\<lambda>row. userId (doc_fields row) = uid) (by_event (participants st) eid))"
    by (simp add: m)
  then have "m \<in> set (participants st)" by (simp add: by_event_def)
  then have "db_destroy (participants st) (doc_id m) (doc_rev m) =
               Inr (filter (\<lambda>x. doc_id x \<noteq> doc_id m) (participants st))"
    using u by (simp add: db_destroy_member)
  then show ?thesis using assms(1,2,5) find_filter_Cons [OF m] by (simp add: cancel_by_pair_def)
qed

lemma later_matches_remain:
  assumes u: "unique_ids db"
    and m: "filter P (by_event db eid) = m # ms"
  shows "set ms \<subseteq> set (filter (\<lambda>x. doc_id x \<noteq> doc_id m) db)"
proof -
  have "distinct (map doc_id (filter P (by_event db eid)))"
    using u by (simp add: by_event_def unique_ids_def distinct_map_filter)
  then have "doc_id m \<notin> doc_id ` set ms" by (simp add: m)
  moreover have "set ms \<subseteq> set (filter P (by_event db eid))" by (auto simp: m)
  then have "set ms \<subseteq> set db" by (auto simp: by_event_def)
  ultimately show ?thesis by (fastforce simp: image_iff)
qed

text \<open>
  C5, as stated, fails for the cancellation by pair. Bob asks to cancel Carol's RSVP for the
  stand-up, for which nobody holds an RSVP: no matching participant exists, and the answer
  is 403, not 404, since the route compares the user of the path with the caller before it
  looks anything up.
\<close>

theorem cancel_counterexample:
  "participants open_store = [] \<and>
   cancel_by_pair (reliable ''t3'' ''p9'') open_store bob ''e1'' ''u3'' =
     \<lparr>reply = Response 403 (Error ''Not authorized to cancel this RSVP''),
      store_after = open_store, logged = []\<rparr>"
  by (simp add: cancel_by_pair_def example_defs)

text \<open>
  C5, amended. Cancellation by identifier: if the store answers the read of the identifier
  with 404, the answer is 404; if the store returns a participant whose \<^verbatim>\<open>userId\<close> differs
  from the caller's identity, the answer is 403. Cancellation by pair: if the user of the
  path differs from the caller's identity the answer is 403, whether or not a matching
  participant exists; if it is the caller's and, the \<^verbatim>\<open>by_event\<close> query answered, no
  participant matches event and user, the answer is 404. In all four cases the store is
  left as it was and nothing is logged.
\<close>

theorem cancel_failures:
  "(attempt (participants_get_fault ev) (db_get (participants st) i) = Inl (StoreError 404) \<longrightarrow>
      cancel_by_id ev st rq i =
        \<lparr>reply = Response 404 (Error ''RSVP not found''), store_after = st, logged = []\<rparr>) \<and>
   (participants_get_fault ev = None \<and> db_get (participants st) i = Inr p \<and>
    userId (doc_fields p) \<noteq> req_userId rq \<longrightarrow>
      cancel_by_id ev st rq i =
        \<lparr>reply = Response 403 (Error ''Not authorized to cancel this RSVP''),
         store_after = st, logged = []\<rparr>) \<and>
   (uid \<noteq> req_userId rq \<longrightarrow>
      cancel_by_pair ev st rq eid uid =
        \<lparr>reply = Response 403 (Error ''Not authorized to cancel this RSVP''),
         store_after = st, logged = []\<rparr>) \<and>
   (uid = req_userId rq \<and> participants_view_fault ev = None \<and>
    (\<forall>q \<in> set (participants st).
        \<not> (eventId (doc_fields q) = eid \<and> userId (doc_fields q) = uid)) \<longrightarrow>
      cancel_by_pair ev st rq eid uid =
        \<lparr>reply = Response 404 (Error ''RSVP not found''), store_after = st, logged = []\<rparr>)"
proof (intro conjI impI)
  assume "attempt (participants_get_fault ev) (db_get (participants st) i) = Inl (StoreError 404)"
  then show "cancel_by_id ev st rq i =
        \<lparr>reply = Response 404 (Error ''RSVP not found''), store_after = st, logged = []\<rparr>"
    by (rule cancel_by_id_absent)
next
  assume "participants_get_fault ev = None \<and> db_get (participants st) i = Inr p \<and>
    userId (doc_fields p) \<noteq> req_userId rq"
  then show "cancel_by_id ev st rq i =
        \<lparr>reply = Response 403 (Error ''Not authorized to cancel this RSVP''),
         store_after = st, logged = []\<rparr>"
    using cancel_by_id_foreign [of ev st i p rq] by blast
next
  assume "uid \<noteq> req_userId rq"
  then show "cancel_by_pair ev st rq eid uid =
        \<lparr>reply = Response 403 (Error ''Not authorized to cancel this RSVP''),
         store_after = st, logged = []\<rparr>"
    by (rule cancel_by_pair_foreign)
next
  assume h: "uid = req_userId rq \<and> participants_view_fault ev = None \<and>
    (\<forall>q \<in> set (participants st).
        \<not> (eventId (doc_fields q) = eid \<and> userId (doc_fields q) = uid))"
  then have "filter (\<lambda>row. userId (doc_fields row) = uid) (by_event (participants st) eid) = []"
    by (auto simp: by_event_def filter_empty_conv)
  with h show "cancel_by_pair ev st rq eid uid =
        \<lparr>reply = Response 404 (Error ''RSVP not found''), store_after = st, logged = []\<rparr>"
    using cancel_by_pair_absent [of uid rq ev st eid] by blast
qed

text \<open>
  C5, an instance: Carol cancels an RSVP under an identifier for which the store answers
  404 and then Bob's, by identifier and by pair.
\<close>

theorem cancel_failures_witness:
  "attempt (participants_get_fault (reliable ''t3'' ''p9'')) (db_get (participants full_store) ''p7'') =
     Inl (StoreError 404) \<and>
   cancel_by_id (reliable ''t3'' ''p9'') full_store carol ''p7'' =
     \<lparr>reply = Response 404 (Error ''RSVP not found''), store_after = full_store, logged = []\<rparr> \<and>
   participants_get_fault (reliable ''t3'' ''p9'') = None \<and>
   db_get (participants full_store) ''p1'' = Inr (rsvp_doc ''p1'' bob ''t1'') \<and>
   userId (doc_fields (rsvp_doc ''p1'' bob ''t1'')) \<noteq> req_userId carol \<and>
   cancel_by_id (reliable ''t3'' ''p9'') full_store carol ''p1'' =
     \<lparr>reply = Response 403 (Error ''Not authorized to cancel this RSVP''),
      store_after = full_store, logged = []\<rparr> \<and>
   ''u2'' \<noteq> req_userId carol \<and>
   cancel_by_pair (reliable ''t3'' ''p9'') full_store carol ''e1'' ''u2'' =
     \<lparr>reply = Response 403 (Error ''Not authorized to cancel this RSVP''),
      store_after = full_store, logged = []\<rparr> \<and>
   ''u3'' = req_userId carol \<and>
   cancel_by_pair (reliable ''t3'' ''p9'') full_store carol ''e1'' ''u3'' =
     \<lparr>reply = Response 404 (Error ''RSVP not found''), store_after = full_store, logged = []\<rparr>"
proof -
  let ?ev = "reliable ''t3'' ''p9''"
  have f: "participants_get_fault ?ev = None" "participants_view_fault ?ev = None"
    by (simp_all add: reliable_def)
  have a: "attempt (participants_get_fault ?ev) (db_get (participants full_store) ''p7'') =
             Inl (StoreError 404)"
    by (simp add: db_get_def example_defs)
  have g: "db_get (participants full_store) ''p1'' = Inr (rsvp_doc ''p1'' bob ''t1'')"
    by (simp add: db_get_def example_defs)
  have o: "userId (doc_fields (rsvp_doc ''p1'' bob ''t1'')) \<noteq> req_userId carol"
    by (simp add: example_defs)
  have b: "''u2'' \<noteq> req_userId carol" by (simp add: carol_def)
  have c: "''u3'' = req_userId carol" by (simp add: carol_def)
  have n: "\<forall>q \<in> set (participants full_store).
             \<not> (eventId (doc_fields q) = ''e1'' \<and> userId (doc_fields q) = ''u3'')"
    by (simp add: example_defs)
  note T1 = cancel_failures [where ev = ?ev and i = "''p7''" and st = full_store and rq = carol
      and uid = "''u2''" and eid = "''e1''"]
  note T2 = cancel_failures [where ev = ?ev and i = "''p1''" and st = full_store and rq = carol
      and p = "rsvp_doc ''p1'' bob ''t1''" and uid = "''u3''" and eid = "''e1''"]
  have 1: "cancel_by_id ?ev full_store carol ''p7'' =
     \<lparr>reply = Response 404 (Error ''RSVP not found''), store_after = full_store, logged = []\<rparr>"
    using T1 a by blast
  have 2: "cancel_by_id ?ev full_store carol ''p1'' =
     \<lparr>reply = Response 403 (Error ''Not authorized to cancel this RSVP''),
      store_after = full_store, logged = []\<rparr>"
    using T2 f(1) g o by blast
  have 3: "cancel_by_pair ?ev full_store carol ''e1'' ''u2'' =
     \<lparr>reply = Response 403 (Error ''Not authorized to cancel this RSVP''),
      store_after = full_store, logged = []\<rparr>"
    using T1 b by blast
  have 4: "cancel_by_pair ?ev full_store carol ''e1'' ''u3'' =
     \<lparr>reply = Response 404 (Error ''RSVP not found''), store_after = full_store, logged = []\<rparr>"
    using T2 c f(2) n by blast
  show ?thesis using f(1) a g o b c 1 2 3 4 by blast
qed

text \<open>
  C8, as stated, fails in one part: nothing is logged when several participants match. Bob
  holds two RSVPs for the stand-up and cancels by pair: the first is deleted, the second
  stays, the answer is 200 and the console stays empty.
\<close>

theorem cancel_by_pair_counterexample:
  "by_event (participants doubled_store) ''e1'' =
     [rsvp_doc ''p1'' bob ''t1'', rsvp_doc ''p2'' bob ''t2''] \<and>
   userId (doc_fields (rsvp_doc ''p1'' bob ''t1'')) = ''u2'' \<and>
   userId (doc_fields (rsvp_doc ''p2'' bob ''t2'')) = ''u2'' \<and>
   cancel_by_pair (reliable ''t3'' ''p9'') doubled_store bob ''e1'' ''u2'' =
     \<lparr>reply = Response 200 (Message ''RSVP cancelled successfully''),
      store_after = base_store [rsvp_doc ''p2'' bob ''t2''], logged = []\<rparr>"
  by (simp add: cancel_by_pair_def db_destroy_def by_event_def example_defs)

text \<open>
  C8, amended. Cancellation by pair, asked by the user of the path and with the \<^verbatim>\<open>by_event\<close>
  query answered, takes the rows of the event in the order of the query and picks the first
  whose \<^verbatim>\<open>userId\<close> is the user's. With no such row the answer is 404 and nothing changes.
  With one or several, the first is deleted (its deletion accepted by the store), the
  answer is 200, the later matches stay in the database, and nothing is logged: several
  matches are not detected. Identifiers are unique in the participants database.
\<close>

theorem cancel_by_pair_first_match:
  assumes "uid = req_userId rq"
    and "participants_view_fault ev = None"
  shows "(filter (\<lambda>row. userId (doc_fields row) = uid) (by_event (participants st) eid) = [] \<longrightarrow>
            cancel_by_pair ev st rq eid uid =
              \<lparr>reply = Response 404 (Error ''RSVP not found''), store_after = st, logged = []\<rparr>) \<and>
         (unique_ids (participants st) \<and>
          filter (\<lambda>row. userId (doc_fields row) = uid) (by_event (participants st) eid) = m # ms \<and>
          participants_destroy_fault ev (doc_id m) = None \<longrightarrow>
            cancel_by_pair ev st rq eid uid =
              \<lparr>reply = Response 200 (Message ''RSVP cancelled successfully''),
               store_after = st\<lparr>participants := filter (\<lambda>x. doc_id x \<noteq> doc_id m) (participants st)\<rparr>,
               logged = []\<rparr> \<and>
            db_get (participants (store_after (cancel_by_pair ev st rq eid uid))) (doc_id m) =
              Inl (StoreError 404) \<and>
            set ms \<subseteq> set (participants (store_after (cancel_by_pair ev st rq eid uid))))"
proof (intro conjI impI)
  assume "filter (\<lambda>row. userId (doc_fields row) = uid) (by_event (participants st) eid) = []"
  then show "cancel_by_pair ev st rq eid uid =
              \<lparr>reply = Response 404 (Error ''RSVP not found''), store_after = st, logged = []\<rparr>"
    using assms by (rule cancel_by_pair_absent [rotated 2])
next
  assume h: "unique_ids (participants st) \<and>
          filter (\<lambda>row. userId (doc_fields row) = uid) (by_event (participants st) eid) = m # ms \<and>
          participants_destroy_fault ev (doc_id m) = None"
  then have r: "cancel_by_pair ev st rq eid uid =
              \<lparr>reply = Response 200 (Message ''RSVP cancelled successfully''),
               store_after = st\<lparr>participants := filter (\<lambda>x. doc_id x \<noteq> doc_id m) (participants st)\<rparr>,
               logged = []\<rparr>"
    using cancel_by_pair_first [OF assms, of st eid m ms] by blast
  show "cancel_by_pair ev st rq eid uid =
              \<lparr>reply = Response 200 (Message ''RSVP cancelled successfully''),
               store_after = st\<lparr>participants := filter (\<lambda>x. doc_id x \<noteq> doc_id m) (participants st)\<rparr>,
               logged = []\<rparr>"
    by (rule r)
  show "db_get (participants (store_after (cancel_by_pair ev st rq eid uid))) (doc_id m) =
              Inl (StoreError 404)"
    by (simp add: r db_get_filter_out)
  have "set ms \<subseteq> set (filter (\<lambda>x. doc_id x \<noteq> doc_id m) (participants st))"
    using h later_matches_remain [of "participants st" "\<lambda>row. userId (doc_fields row) = uid" eid m ms]
    by blast
  then show "set ms \<subseteq> set (participants (store_after (cancel_by_pair ev st rq eid uid)))"
    by (simp add: r)
qed

text \<open>
  C8, an instance: Carol, who holds no RSVP, gets 404; Bob, who holds two, loses the first
  and keeps the second.
\<close>

theorem cancel_by_pair_first_match_witness:
  "''u2'' = req_userId bob \<and>
   participants_view_fault (reliable ''t3'' ''p9'') = None \<and>
   unique_ids (participants doubled_store) \<and>
   filter (\<lambda>row. userId (doc_fields row) = ''u2'') (by_event (participants doubled_store) ''e1'') =
     [rsvp_doc ''p1'' bob ''t1'', rsvp_doc ''p2'' bob ''t2''] \<and>
   participants_destroy_fault (reliable ''t3'' ''p9'') (doc_id (rsvp_doc ''p1'' bob ''t1'')) = None \<and>
   logged (cancel_by_pair (reliable ''t3'' ''p9'') doubled_store bob ''e1'' ''u2'') = [] \<and>
   set [rsvp_doc ''p2'' bob ''t2''] \<subseteq>
     set (participants (store_after (cancel_by_pair (reliable ''t3'' ''p9'') doubled_store bob ''e1'' ''u2''))) \<and>
   db_get (participants (store_after (cancel_by_pair (reliable ''t3'' ''p9'') doubled_store bob ''e1'' ''u2'')))
     (doc_id (rsvp_doc ''p1'' bob ''t1'')) = Inl (StoreError 404) \<and>
   ''u3'' = req_userId carol \<and>
   filter (\<lambda>row. userId (doc_fields row) = ''u3'') (by_event (participants doubled_store) ''e1'') = [] \<and>
   cancel_by_pair (reliable ''t3'' ''p9'') doubled_store carol ''e1'' ''u3'' =
     \<lparr>reply = Response 404 (Error ''RSVP not found''), store_after = doubled_store, logged = []\<rparr>"
proof -
  let ?ev = "reliable ''t3'' ''p9''"
  have b: "''u2'' = req_userId bob" by (simp add: bob_def)
  have v: "participants_view_fault ?ev = None" by (simp add: reliable_def)
  have u: "unique_ids (participants doubled_store)"
    by (simp add: unique_ids_def example_defs)
  have m: "filter (\<lambda>row. userId (doc_fields row) = ''u2'') (by_event (participants doubled_store) ''e1'') =
     [rsvp_doc ''p1'' bob ''t1'', rsvp_doc ''p2'' bob ''t2'']"
    by (simp add: by_event_def example_defs)
  have d: "participants_destroy_fault ?ev (doc_id (rsvp_doc ''p1'' bob ''t1'')) = None"
    by (simp add: reliable_def)
  note T = cancel_by_pair_first_match [OF b v, where st = doubled_store and eid = "''e1''"
      and m = "rsvp_doc ''p1'' bob ''t1''" and ms = "[rsvp_doc ''p2'' bob ''t2'']"]
  have r: "cancel_by_pair ?ev doubled_store bob ''e1'' ''u2'' =
              \<lparr>reply = Response 200 (Message ''RSVP cancelled successfully''),
               store_after = doubled_store\<lparr>participants :=
                 filter (\<lambda>x. doc_id x \<noteq> doc_id (rsvp_doc ''p1'' bob ''t1'')) (participants doubled_store)\<rparr>,
               logged = []\<rparr> \<and>
     db_get (participants (store_after (cancel_by_pair ?ev doubled_store bob ''e1'' ''u2'')))
       (doc_id (rsvp_doc ''p1'' bob ''t1'')) = Inl (StoreError 404) \<and>
     set [rsvp_doc ''p2'' bob ''t2''] \<subseteq>
       set (participants (store_after (cancel_by_pair ?ev doubled_store bob ''e1'' ''u2'')))"
    using T u m d by blast
  then have l: "logged (cancel_by_pair ?ev doubled_store bob ''e1'' ''u2'') = []"
    by simp
  have c: "''u3'' = req_userId carol" by (simp add: carol_def)
  have n: "filter (\<lambda>row. userId (doc_fields row) = ''u3'')
             (by_event (participants doubled_store) ''e1'') = []"
    by (simp add: by_event_def example_defs)
  have k: "cancel_by_pair ?ev doubled_store carol ''e1'' ''u3'' =
     \<lparr>reply = Response 404 (Error ''RSVP not found''), store_after = doubled_store, logged = []\<rparr>"
    using cancel_by_pair_first_match [OF c v, where st = doubled_store and eid = "''e1''"] n by blast
  show ?thesis using b v u m d r l c n k by blast
qed

section \<open>Updating an event\<close>

lemma find_replaced:
  "doc_id D = i \<Longrightarrow> find (\<lambda>x. doc_id x = i) db = Some d \<Longrightarrow>
   find (\<lambda>x. doc_id x = i) (map (\<lambda>x. if doc_id x = i then D else x) db) = Some D"
  by (induction db) (auto split: if_splits)

lemma find_elsewhere:
  "doc_id D = i \<Longrightarrow> j \<noteq> i \<Longrightarrow>
   find (\<lambda>x. doc_id x = j) (map (\<lambda>x. if doc_id x = i then D else x) db) =
   find (\<lambda>x. doc_id x = j) db"
  by (induction db) auto

lemma db_update_got:
  assumes "db_get db i = Inr d"
  shows "db_update db (d\<lparr>doc_fields := e\<rparr>) =
           Inr (map (\<lambda>x. if doc_id x = i then d\<lparr>doc_fields := e, doc_rev := Suc (doc_rev d)\<rparr> else x) db)"
proof -
  have "find (\<lambda>x. doc_id x = i) db = Some d" "doc_id d = i"
    using assms by (auto simp: db_get_def split: option.splits dest: find_SomeD)
  then show ?thesis by (simp add: db_update_def)
qed

lemma update_event_result:
  assumes "update_valid v b" and "db_get (events st) i = Inr d"
    and "creatorId (doc_fields d) = req_userId rq"
    and "events_get_fault ev = None" and "events_insert_fault ev = None"
  shows "update_event v ev st rq i b =
           \<lparr>reply = Response 200 (EventUpdated i (merge_update (now ev) b (doc_fields d))),
            store_after = st\<lparr>events := map (\<lambda>x. if doc_id x = i
                then d\<lparr>doc_fields := merge_update (now ev) b (doc_fields d), doc_rev := Suc (doc_rev d)\<rparr>
                else x) (events st)\<rparr>,
            logged = []\<rparr>"
proof -
  have "doc_id d = i" using assms(2) db_get_Inr by blast
  then show ?thesis
    using assms db_update_got [OF assms(2), of "merge_update (now ev) b (doc_fields d)"]
    by (simp add: update_event_def Let_def)
qed

lemma overwrite_trimmed:
  "not_empty_if_present x \<Longrightarrow>
   overwrite_if_truthy (map_option trim x) old = (case x of None \<Rightarrow> old | Some s \<Rightarrow> trim s)"
  by (cases x) (simp_all add: not_empty_if_present_def overwrite_if_truthy_def)

lemma overwrite_date:
  "\<not> v [] \<Longrightarrow> (case x of None \<Rightarrow> True | Some d \<Rightarrow> v d) \<Longrightarrow>
   overwrite_if_truthy x old = (case x of None \<Rightarrow> old | Some s \<Rightarrow> s)"
  by (cases x) (auto simp: overwrite_if_truthy_def)

lemma update_event_unchanged:
  assumes "db_get (events st) i = Inr d" and "creatorId (doc_fields d) \<noteq> req_userId rq"
  shows "store_after (update_event v ev st rq i b) = st"
  using assms
  by (cases "events_get_fault ev") (simp_all add: update_event_def update_failed_def)

lemma delete_event_unchanged:
  assumes "db_get (events st) i = Inr d" and "creatorId (doc_fields d) \<noteq> req_userId rq"
  shows "store_after (delete_event ev st rq i) = st"
  using assms
  by (cases "events_get_fault ev") (simp_all add: delete_event_def delete_failed_def)

lemma update_event_ok:
  assumes "status (reply (update_event v ev st rq i b)) = 200"
  shows "\<exists>d. db_get (events st) i = Inr d \<and> creatorId (doc_fields d) = req_userId rq"
  using assms
  by (auto simp: update_event_def update_failed_def Let_def attempt_Inr
      split: if_splits sum.splits)

lemma delete_event_ok:
  assumes "status (reply (delete_event ev st rq i)) = 200"
  shows "\<exists>d. db_get (events st) i = Inr d \<and> creatorId (doc_fields d) = req_userId rq"
  using assms
  by (auto simp: delete_event_def delete_failed_def attempt_Inr
      split: if_splits sum.splits prod.splits)

section \<open>Only the creator changes or deletes an event\<close>

text \<open>
  C6, as stated, fails. Bob, who did not create the stand-up, sends an update whose body
  does not pass the validation of the route. The validation runs before the event is read:
  the answer is 400, not 403.
\<close>

theorem creator_only_counterexample:
  "db_get (events crowded_store) ''e1'' = Inr standup \<and>
   creatorId (doc_fields standup) = ''u1'' \<and>
   req_userId bob = ''u2'' \<and>
   update_event any_date (reliable ''t3'' ''p9'') crowded_store bob ''e1'' no_seats =
     \<lparr>reply = Response 400 Errors, store_after = crowded_store, logged = []\<rparr>"
  by (simp add: update_event_def update_valid_def not_empty_if_present_def db_get_def example_defs)

text \<open>
  C6, amended. Event update and event deletion are answered with 200 only when the caller's
  identity is the \<^verbatim>\<open>creatorId\<close> of the stored event. For a caller whose identity differs from
  the \<^verbatim>\<open>creatorId\<close> of the event, both operations fail and neither changes the store (the
  event, the participants, the users), whatever the body and whatever the store does; with
  the event returned by the store the deletion is answered with 403, and so is the update
  of a body that passes the validation of the route, which comes first.
\<close>

theorem creator_only:
  "(status (reply (update_event isISO8601 ev st rq i b)) = 200 \<longrightarrow>
      (\<exists>c. db_get (events st) i = Inr c \<and> creatorId (doc_fields c) = req_userId rq)) \<and>
   (status (reply (delete_event ev st rq i)) = 200 \<longrightarrow>
      (\<exists>c. db_get (events st) i = Inr c \<and> creatorId (doc_fields c) = req_userId rq)) \<and>
   (db_get (events st) i = Inr d \<and> creatorId (doc_fields d) \<noteq> req_userId rq \<longrightarrow>
      store_after (update_event isISO8601 ev st rq i b) = st \<and>
      store_after (delete_event ev st rq i) = st \<and>
      status (reply (update_event isISO8601 ev st rq i b)) \<noteq> 200 \<and>
      status (reply (delete_event ev st rq i)) \<noteq> 200 \<and>
      (events_get_fault ev = None \<longrightarrow>
         reply (delete_event ev st rq i) =
           Response 403 (Error ''Not authorized to delete this event'') \<and>
         (update_valid isISO8601 b \<longrightarrow>
            reply (update_event isISO8601 ev st rq i b) =
              Response 403 (Error ''Not authorized to update this event''))))"
proof (intro conjI impI)
  assume "status (reply (update_event isISO8601 ev st rq i b)) = 200"
  then show "\<exists>c. db_get (events st) i = Inr c \<and> creatorId (doc_fields c) = req_userId rq"
    by (rule update_event_ok)
next
  assume "status (reply (delete_event ev st rq i)) = 200"
  then show "\<exists>c. db_get (events st) i = Inr c \<and> creatorId (doc_fields c) = req_userId rq"
    by (rule delete_event_ok)
next
  assume h: "db_get (events st) i = Inr d \<and> creatorId (doc_fields d) \<noteq> req_userId rq"
  then show "store_after (update_event isISO8601 ev st rq i b) = st"
    using update_event_unchanged [of st i d rq] by blast
  from h show "store_after (delete_event ev st rq i) = st"
    using delete_event_unchanged [of st i d rq] by blast
  from h show "status (reply (update_event isISO8601 ev st rq i b)) \<noteq> 200"
    using update_event_ok [of isISO8601 ev st rq i b] by auto
  from h show "status (reply (delete_event ev st rq i)) \<noteq> 200"
    using delete_event_ok [of ev st rq i] by auto
next
  assume "db_get (events st) i = Inr d \<and> creatorId (doc_fields d) \<noteq> req_userId rq"
    and "events_get_fault ev = None"
  then show "reply (delete_event ev st rq i) =
           Response 403 (Error ''Not authorized to delete this event'')"
    by (simp add: delete_event_def)
next
  assume "db_get (events st) i = Inr d \<and> creatorId (doc_fields d) \<noteq> req_userId rq"
    and "events_get_fault ev = None" and "update_valid isISO8601 b"
  then show "reply (update_event isISO8601 ev st rq i b) =
              Response 403 (Error ''Not authorized to update this event'')"
    by (simp add: update_event_def)
qed

text \<open>
  C6, an instance: Bob, who did not create the stand-up, tries to rename it and to delete
  it; both requests get 403 and the store keeps the event and the two RSVPs.
\<close>

theorem creator_only_witness:
  "db_get (events crowded_store) ''e1'' = Inr standup \<and>
   creatorId (doc_fields standup) \<noteq> req_userId bob \<and>
   events_get_fault (reliable ''t3'' ''p9'') = None \<and>
   update_valid any_date retitle \<and>
   store_after (update_event any_date (reliable ''t3'' ''p9'') crowded_store bob ''e1'' retitle) =
     crowded_store \<and>
   store_after (delete_event (reliable ''t3'' ''p9'') crowded_store bob ''e1'') = crowded_store \<and>
   reply (delete_event (reliable ''t3'' ''p9'') crowded_store bob ''e1'') =
     Response 403 (Error ''Not authorized to delete this event'') \<and>
   reply (update_event any_date (reliable ''t3'' ''p9'') crowded_store bob ''e1'' retitle) =
     Response 403 (Error ''Not authorized to update this event'')"
proof -
  have d: "db_get (events crowded_store) ''e1'' = Inr standup"
    by (simp add: db_get_def example_defs)
  have c: "creatorId (doc_fields standup) \<noteq> req_userId bob"
    by (simp add: example_defs)
  have f: "events_get_fault (reliable ''t3'' ''p9'') = None"
    by (simp add: reliable_def)
  have v: "update_valid any_date retitle"
    by (simp add: update_valid_def not_empty_if_present_def retitle_def trim_def is_space_def any_date_def)
  note T = creator_only [of any_date "reliable ''t3'' ''p9''" crowded_store bob "''e1''"
      retitle standup]
  show ?thesis using T d c f v by blast
qed

section \<open>What an update overwrites\<close>

text \<open>
  C7. An update by the creator, with a body that passes the validation of the route and a
  store that rejects neither the read nor the write, is answered with 200 and stores the
  event under a new revision: every field the body supplies holds the supplied value (as
  sanitized by the route's \<^verbatim>\<open>trim\<close> for title, description and location), every field the
  body omits holds its previous value, \<^verbatim>\<open>creatorId\<close>, \<^verbatim>\<open>creatorName\<close> and \<^verbatim>\<open>createdAt\<close> are
  kept, and \<^verbatim>\<open>updatedAt\<close> is the time of the request. The participants, the users and the
  other events are as before. In particular a body with only a title leaves
  \<^verbatim>\<open>maxParticipants\<close> and every participant as they were. The validator \<open>isISO8601\<close>
  rejects the empty string.
\<close>

theorem update_event_frame:
  assumes "update_valid isISO8601 b"
    and "\<not> isISO8601 []"
    and "db_get (events st) i = Inr d"
    and "creatorId (doc_fields d) = req_userId rq"
    and "events_get_fault ev = None"
    and "events_insert_fault ev = None"
  shows "\<exists>d'. reply (update_event isISO8601 ev st rq i b) = Response 200 (EventUpdated i (doc_fields d')) \<and>
           db_get (events (store_after (update_event isISO8601 ev st rq i b))) i = Inr d' \<and>
           doc_rev d' = Suc (doc_rev d) \<and>
           title (doc_fields d') =
             (case new_title b of None \<Rightarrow> title (doc_fields d) | Some t \<Rightarrow> trim t) \<and>
           description (doc_fields d') =
             (case new_description b of None \<Rightarrow> description (doc_fields d) | Some t \<Rightarrow> trim t) \<and>
           date (doc_fields d') =
             (case new_date b of None \<Rightarrow> date (doc_fields d) | Some t \<Rightarrow> t) \<and>
           location (doc_fields d') =
             (case new_location b of None \<Rightarrow> location (doc_fields d) | Some t \<Rightarrow> trim t) \<and>
           maxParticipants (doc_fields d') =
             (case new_maxParticipants b of None \<Rightarrow> maxParticipants (doc_fields d) | Some n \<Rightarrow> Some n) \<and>
           creatorId (doc_fields d') = creatorId (doc_fields d) \<and>
           creatorName (doc_fields d') = creatorName (doc_fields d) \<and>
           createdAt (doc_fields d') = createdAt (doc_fields d) \<and>
           updatedAt (doc_fields d') = now ev \<and>
           participants (store_after (update_event isISO8601 ev st rq i b)) = participants st \<and>
           users (store_after (update_event isISO8601 ev st rq i b)) = users st \<and>
           (\<forall>j. j \<noteq> i \<longrightarrow>
              db_get (events (store_after (update_event isISO8601 ev st rq i b))) j =
              db_get (events st) j)"
proof -
  let ?e = "merge_update (now ev) b (doc_fields d)"
  let ?d = "d\<lparr>doc_fields := ?e, doc_rev := Suc (doc_rev d)\<rparr>"
  note r = update_event_result [OF assms(1,3-6)]
  have i: "doc_id ?d = i" "find (\<lambda>x. doc_id x = i) (events st) = Some d"
    using assms(3) by (auto simp: db_get_def split: option.splits dest: find_SomeD)
  have v: "not_empty_if_present (new_title b)" "not_empty_if_present (new_description b)"
      "not_empty_if_present (new_location b)"
      "case new_date b of None \<Rightarrow> True | Some x \<Rightarrow> isISO8601 x"
    using assms(1) by (simp_all add: update_valid_def)
  have 1: "reply (update_event isISO8601 ev st rq i b) = Response 200 (EventUpdated i (doc_fields ?d))"
    by (simp add: r)
  have 2: "db_get (events (store_after (update_event isISO8601 ev st rq i b))) i = Inr ?d"
    using find_replaced [OF i] by (simp add: r db_get_def)
  have 3: "doc_rev ?d = Suc (doc_rev d)" by simp
  have 4: "title (doc_fields ?d) =
             (case new_title b of None \<Rightarrow> title (doc_fields d) | Some t \<Rightarrow> trim t)"
      "description (doc_fields ?d) =
             (case new_description b of None \<Rightarrow> description (doc_fields d) | Some t \<Rightarrow> trim t)"
      "location (doc_fields ?d) =
             (case new_location b of None \<Rightarrow> location (doc_fields d) | Some t \<Rightarrow> trim t)"
    using v(1-3) by (simp_all add: merge_update_def overwrite_trimmed)
  have 5: "date (doc_fields ?d) =
             (case new_date b of None \<Rightarrow> date (doc_fields d) | Some t \<Rightarrow> t)"
    using overwrite_date [OF assms(2) v(4)] by (simp add: merge_update_def)
  have 6: "maxParticipants (doc_fields ?d) =
             (case new_maxParticipants b of None \<Rightarrow> maxParticipants (doc_fields d) | Some n \<Rightarrow> Some n)"
      "creatorId (doc_fields ?d) = creatorId (doc_fields d)"
      "creatorName (doc_fields ?d) = creatorName (doc_fields d)"
      "createdAt (doc_fields ?d) = createdAt (doc_fields d)"
      "updatedAt (doc_fields ?d) = now ev"
    by (simp_all add: merge_update_def)
  have 7: "participants (store_after (update_event isISO8601 ev st rq i b)) = participants st"
      "users (store_after (update_event isISO8601 ev st rq i b)) = users st"
    by (simp_all add: r)
  have 8: "\<forall>j. j \<noteq> i \<longrightarrow>
              db_get (events (store_after (update_event isISO8601 ev st rq i b))) j =
              db_get (events st) j"
    using find_elsewhere [OF i(1)] by (simp add: r db_get_def)
  show ?thesis
    using 1 2 3 4 5 6 7 8 by (intro exI [of _ ?d]) blast
qed

text \<open>
  C7, an instance: Alice renames her stand-up. The title is the one she sent, trimmed; the
  single seat and the two RSVPs are as before.
\<close>

theorem update_event_frame_witness:
  "update_valid any_date retitle \<and>
   db_get (events crowded_store) ''e1'' = Inr standup \<and>
   creatorId (doc_fields standup) = req_userId alice \<and>
   (\<exists>d'. db_get (events (store_after
             (update_event any_date (reliable ''t3'' ''p9'') crowded_store alice ''e1'' retitle)))
             ''e1'' = Inr d' \<and>
          title (doc_fields d') = ''Retro'' \<and>
          location (doc_fields d') = ''Room A'' \<and>
          maxParticipants (doc_fields d') = Some 1 \<and>
          updatedAt (doc_fields d') = ''t3'') \<and>
   participants (store_after
       (update_event any_date (reliable ''t3'' ''p9'') crowded_store alice ''e1'' retitle)) =
     participants crowded_store"
proof -
  let ?ev = "reliable ''t3'' ''p9''"
  have v: "update_valid any_date retitle"
    by (simp add: update_valid_def not_empty_if_present_def retitle_def trim_def is_space_def any_date_def)
  have n: "\<not> any_date []" by (simp add: any_date_def)
  have d: "db_get (events crowded_store) ''e1'' = Inr standup"
    by (simp add: db_get_def example_defs)
  have c: "creatorId (doc_fields standup) = req_userId alice"
    by (simp add: example_defs)
  have f: "events_get_fault ?ev = None" "events_insert_fault ?ev = None"
    by (simp_all add: reliable_def)
  have b: "new_title retitle = Some '' Retro ''" "new_location retitle = None"
      "new_maxParticipants retitle = None" "trim '' Retro '' = ''Retro''"
    by (simp_all add: retitle_def trim_def is_space_def)
  have s: "location (doc_fields standup) = ''Room A''" "maxParticipants (doc_fields standup) = Some 1"
      "now ?ev = ''t3''"
    by (simp_all add: standup_def reliable_def)
  from update_event_frame [OF v n d c f]
  obtain d' where T:
      "db_get (events (store_after (update_event any_date ?ev crowded_store alice ''e1'' retitle)))
         ''e1'' = Inr d'"
      "title (doc_fields d') =
         (case new_title retitle of None \<Rightarrow> title (doc_fields standup) | Some t \<Rightarrow> trim t)"
      "location (doc_fields d') =
         (case new_location retitle of None \<Rightarrow> location (doc_fields standup) | Some t \<Rightarrow> trim t)"
      "maxParticipants (doc_fields d') =
         (case new_maxParticipants retitle of None \<Rightarrow> maxParticipants (doc_fields standup)
          | Some n \<Rightarrow> Some n)"
      "updatedAt (doc_fields d') = now ?ev"
      "participants (store_after (update_event any_date ?ev crowded_store alice ''e1'' retitle)) =
         participants crowded_store"
    by blast
  have "title (doc_fields d') = ''Retro''" "location (doc_fields d') = ''Room A''"
      "maxParticipants (doc_fields d') = Some 1" "updatedAt (doc_fields d') = ''t3''"
    using T(2-5) by (simp_all add: b s)
  then show ?thesis using v d c T(1,6) by blast
qed

section \<open>RSVP creation when the lookup fails\<close>

text \<open>
  C9. In RSVP creation, when the store rejects the \<^verbatim>\<open>by_event\<close> query, the error is swallowed
  (nothing is logged) and neither the duplicate check nor the capacity check takes place:
  with the event read, the handler goes on to the insert, whoever holds an RSVP and
  whatever the capacity; with the insert accepted, the participant is stored and the
  answer is 201. So the answers \<^verbatim>\<open>Already RSVP'd
  to this event\<close> and \<^verbatim>\<open>Event is full\<close> are given only by calls whose query the store answered.
\<close>

theorem rsvp_lookup_failure:
  "(participants_view_fault ev = Some c \<and> trim raw \<noteq> [] \<and> events_get_fault ev = None \<and>
    db_get (events st) (trim raw) = Inr e \<longrightarrow>
      rsvp_create ev st rq raw =
        rsvp_commit ev st
          \<lparr>eventId = trim raw, userId = req_userId rq, userName = name (req_user rq),
           userEmail = email (req_user rq), eventTitle = title (doc_fields e),
           eventDate = date (doc_fields e), rsvpDate = now ev\<rparr>) \<and>
   (participants_view_fault ev = Some c \<and> trim raw \<noteq> [] \<and> events_get_fault ev = None \<and>
    db_get (events st) (trim raw) = Inr e \<and> participants_insert_fault ev = None \<and>
    assigned_id ev \<notin> doc_id ` set (participants st) \<longrightarrow>
      rsvp_create ev st rq raw =
        \<lparr>reply = Response 201 (RsvpSuccessful (assigned_id ev)
             \<lparr>eventId = trim raw, userId = req_userId rq, userName = name (req_user rq),
              userEmail = email (req_user rq), eventTitle = title (doc_fields e),
              eventDate = date (doc_fields e), rsvpDate = now ev\<rparr>),
         store_after = st\<lparr>participants := participants st @
           [\<lparr>doc_id = assigned_id ev, doc_rev = 1,
             doc_fields = \<lparr>eventId = trim raw, userId = req_userId rq, userName = name (req_user rq),
               userEmail = email (req_user rq), eventTitle = title (doc_fields e),
               eventDate = date (doc_fields e), rsvpDate = now ev\<rparr>\<rparr>]\<rparr>,
         logged = []\<rparr>) \<and>
   (reply (rsvp_create ev st rq raw) = Response 400 (Error ''Already RSVP'd to this event'') \<or>
    reply (rsvp_create ev st rq raw) = Response 400 (Error ''Event is full'') \<longrightarrow>
      participants_view_fault ev = None)"
proof (intro conjI impI)
  assume "participants_view_fault ev = Some c \<and> trim raw \<noteq> [] \<and> events_get_fault ev = None \<and>
    db_get (events st) (trim raw) = Inr e"
  then show "rsvp_create ev st rq raw =
        rsvp_commit ev st
          \<lparr>eventId = trim raw, userId = req_userId rq, userName = name (req_user rq),
           userEmail = email (req_user rq), eventTitle = title (doc_fields e),
           eventDate = date (doc_fields e), rsvpDate = now ev\<rparr>"
    by (simp add: rsvp_create_def rsvp_check_def Let_def)
next
  assume "participants_view_fault ev = Some c \<and> trim raw \<noteq> [] \<and> events_get_fault ev = None \<and>
    db_get (events st) (trim raw) = Inr e \<and> participants_insert_fault ev = None \<and>
    assigned_id ev \<notin> doc_id ` set (participants st)"
  then show "rsvp_create ev st rq raw =
        \<lparr>reply = Response 201 (RsvpSuccessful (assigned_id ev)
             \<lparr>eventId = trim raw, userId = req_userId rq, userName = name (req_user rq),
              userEmail = email (req_user rq), eventTitle = title (doc_fields e),
              eventDate = date (doc_fields e), rsvpDate = now ev\<rparr>),
         store_after = st\<lparr>participants := participants st @
           [\<lparr>doc_id = assigned_id ev, doc_rev = 1,
             doc_fields = \<lparr>eventId = trim raw, userId = req_userId rq, userName = name (req_user rq),
               userEmail = email (req_user rq), eventTitle = title (doc_fields e),
               eventDate = date (doc_fields e), rsvpDate = now ev\<rparr>\<rparr>]\<rparr>,
         logged = []\<rparr>"
    by (simp add: rsvp_create_def rsvp_check_def rsvp_commit_def db_insert_def Let_def)
next
  assume h: "reply (rsvp_create ev st rq raw) = Response 400 (Error ''Already RSVP'd to this event'') \<or>
    reply (rsvp_create ev st rq raw) = Response 400 (Error ''Event is full'')"
  show "participants_view_fault ev = None"
  proof (cases "participants_view_fault ev")
    case None
    then show ?thesis .
  next
    case (Some k)
    have "reply (rsvp_create ev st rq raw) \<noteq> Response 400 (Error ''Already RSVP'd to this event'') \<and>
          reply (rsvp_create ev st rq raw) \<noteq> Response 400 (Error ''Event is full'')"
      using Some
      by (cases "participants_insert_fault ev")
         (auto simp: rsvp_create_def rsvp_check_def rsvp_commit_def db_insert_def Let_def
          split: sum.splits)
    with h show ?thesis by blast
  qed
qed

text \<open>
  C9, an instance: Bob holds the only seat of the stand-up and asks once more while the
  store rejects the query. He gets 201 and a second participant.
\<close>

theorem rsvp_lookup_failure_witness:
  "participants_view_fault (view_down ''t2'' ''p2'') = Some 404 \<and>
   trim ''e1'' \<noteq> [] \<and>
   db_get (events full_store) (trim ''e1'') = Inr standup \<and>
   assigned_id (view_down ''t2'' ''p2'') \<notin> doc_id ` set (participants full_store) \<and>
   list_ex (\<lambda>row. userId (doc_fields row) = req_userId bob) (by_event (participants full_store) ''e1'') \<and>
   event_full (maxParticipants (doc_fields standup)) (length (by_event (participants full_store) ''e1'')) \<and>
   status (reply (rsvp_create (view_down ''t2'' ''p2'') full_store bob ''e1'')) = 201 \<and>
   length (participants (store_after (rsvp_create (view_down ''t2'' ''p2'') full_store bob ''e1''))) = 2 \<and>
   logged (rsvp_create (view_down ''t2'' ''p2'') full_store bob ''e1'') = []"
proof -
  let ?ev = "view_down ''t2'' ''p2''"
  have f: "participants_view_fault ?ev = Some 404" "events_get_fault ?ev = None"
      "participants_insert_fault ?ev = None"
    by (simp_all add: view_down_def reliable_def)
  have t: "trim ''e1'' \<noteq> []" by (simp add: trim_e1)
  have d: "db_get (events full_store) (trim ''e1'') = Inr standup"
    by (simp add: trim_e1 db_get_def example_defs)
  have a: "assigned_id ?ev \<notin> doc_id ` set (participants full_store)"
    by (simp add: example_defs)
  have x: "list_ex (\<lambda>row. userId (doc_fields row) = req_userId bob) (by_event (participants full_store) ''e1'')"
      "event_full (maxParticipants (doc_fields standup)) (length (by_event (participants full_store) ''e1''))"
    by (simp_all add: by_event_def event_full_def example_defs)
  have n: "length (participants full_store) = 1" by (simp add: example_defs)
  have "rsvp_create ?ev full_store bob ''e1'' =
        \<lparr>reply = Response 201 (RsvpSuccessful (assigned_id ?ev)
             \<lparr>eventId = trim ''e1'', userId = req_userId bob, userName = name (req_user bob),
              userEmail = email (req_user bob), eventTitle = title (doc_fields standup),
              eventDate = date (doc_fields standup), rsvpDate = now ?ev\<rparr>),
         store_after = full_store\<lparr>participants := participants full_store @
           [\<lparr>doc_id = assigned_id ?ev, doc_rev = 1,
             doc_fields = \<lparr>eventId = trim ''e1'', userId = req_userId bob, userName = name (req_user bob),
               userEmail = email (req_user bob), eventTitle = title (doc_fields standup),
               eventDate = date (doc_fields standup), rsvpDate = now ?ev\<rparr>\<rparr>]\<rparr>,
         logged = []\<rparr>"
    using rsvp_lookup_failure [of ?ev 404 "''e1''" full_store standup bob] f t d a by blast
  then have r: "status (reply (rsvp_create ?ev full_store bob ''e1'')) = 201"
      "length (participants (store_after (rsvp_create ?ev full_store bob ''e1''))) = 2"
      "logged (rsvp_create ?ev full_store bob ''e1'') = []"
    using n by simp_all
  show ?thesis using f(1) t d a x r by blast
qed

section \<open>A valid token of a user who is gone\<close>

text \<open>
  C10, as stated, fails. The token is valid and names a user whose document is no longer in
  the users database. The middleware answers 401 with the message \<^verbatim>\<open>User not found\<close>, not 404.
\<close>

theorem auth_counterexample:
  "issued ''tok4'' = Some ''u4'' \<and>
   db_get (users open_store) ''u4'' = Inl (StoreError 404) \<and>
   auth issued (reliable ''t3'' ''p9'') open_store (Some ''Bearer tok4'') =
     Inl (Response 401 (Error ''User not found''))"
  by (simp add: auth_def db_get_def example_defs)

text \<open>
  C10, amended. When the authentication step receives a bearer credential that is valid but
  whose subject user is not in the store, it fails with 401 and the message
  \<^verbatim>\<open>User not found\<close>. The status is the one of a missing credential and of an invalid or
  expired one; the three differ by their message only (\<^verbatim>\<open>Authentication required\<close>,
  \<^verbatim>\<open>Invalid token\<close>).
\<close>

theorem auth_failures:
  "(replace_first ''Bearer '' [] h \<noteq> [] \<and> jwt_verify (replace_first ''Bearer '' [] h) = Some uid \<and>
    db_get (users st) uid = Inl (StoreError 404) \<longrightarrow>
      auth jwt_verify ev st (Some h) = Inl (Response 401 (Error ''User not found''))) \<and>
   auth jwt_verify ev st None = Inl (Response 401 (Error ''Authentication required'')) \<and>
   (replace_first ''Bearer '' [] h = [] \<longrightarrow>
      auth jwt_verify ev st (Some h) = Inl (Response 401 (Error ''Authentication required''))) \<and>
   (replace_first ''Bearer '' [] h \<noteq> [] \<and> jwt_verify (replace_first ''Bearer '' [] h) = None \<longrightarrow>
      auth jwt_verify ev st (Some h) = Inl (Response 401 (Error ''Invalid token'')))"
  by (cases "users_get_fault ev") (simp_all add: auth_def)

text \<open>
  C10, an instance: the token of the removed user, a request without a header, one with an
  empty token and one with a token the verifier rejects.
\<close>

theorem auth_failures_witness:
  "replace_first ''Bearer '' [] ''Bearer tok4'' \<noteq> [] \<and>
   issued (replace_first ''Bearer '' [] ''Bearer tok4'') = Some ''u4'' \<and>
   db_get (users open_store) ''u4'' = Inl (StoreError 404) \<and>
   auth issued (reliable ''t3'' ''p9'') open_store (Some ''Bearer tok4'') =
     Inl (Response 401 (Error ''User not found'')) \<and>
   replace_first ''Bearer '' [] ''Bearer '' = [] \<and>
   auth issued (reliable ''t3'' ''p9'') open_store (Some ''Bearer '') =
     Inl (Response 401 (Error ''Authentication required'')) \<and>
   replace_first ''Bearer '' [] ''Bearer tok9'' \<noteq> [] \<and>
   issued (replace_first ''Bearer '' [] ''Bearer tok9'') = None \<and>
   auth issued (reliable ''t3'' ''p9'') open_store (Some ''Bearer tok9'') =
     Inl (Response 401 (Error ''Invalid token''))"
proof -
  let ?ev = "reliable ''t3'' ''p9''"
  have a: "replace_first ''Bearer '' [] ''Bearer tok4'' \<noteq> []"
      "issued (replace_first ''Bearer '' [] ''Bearer tok4'') = Some ''u4''"
    by (simp_all add: issued_def)
  have g: "db_get (users open_store) ''u4'' = Inl (StoreError 404)"
    by (simp add: db_get_def example_defs)
  have b: "replace_first ''Bearer '' [] ''Bearer '' = []" by simp
  have c: "replace_first ''Bearer '' [] ''Bearer tok9'' \<noteq> []"
      "issued (replace_first ''Bearer '' [] ''Bearer tok9'') = None"
    by (simp_all add: issued_def)
  have 1: "auth issued ?ev open_store (Some ''Bearer tok4'') =
     Inl (Response 401 (Error ''User not found''))"
    using auth_failures [of "''Bearer tok4''" issued "''u4''" open_store ?ev] a g by blast
  have 2: "auth issued ?ev open_store (Some ''Bearer '') =
     Inl (Response 401 (Error ''Authentication required''))"
    using auth_failures [of "''Bearer ''" issued "''u4''" open_store ?ev] b by blast
  have 3: "auth issued ?ev open_store (Some ''Bearer tok9'') =
     Inl (Response 401 (Error ''Invalid token''))"
    using auth_failures [of "''Bearer tok9''" issued "''u4''" open_store ?ev] c by blast
  show ?thesis using a g b c 1 2 3 by blast
qed

end
